theory Spec2Isabelle
  imports
    Main
    "HOL-Library.Char_ord"
    "HOL-Library.List_Lexorder"
    "HOL-Library.Product_Lexorder"
    "HOL-Library.Multiset"
    "HOL-Library.AList"
begin

section \<open>Python strings\<close>

text \<open>
  A Python \<open>str\<close> is a sequence of code points. The model uses \<open>string\<close>, so a
  character is a code point in the range 0..255; on that range the functions below
  compute what CPython's \<open>str\<close> methods compute.
\<close>

definition isspace :: "char \<Rightarrow> bool" where
  \<comment> \<open>the code points below 256 for which \<open>str.isspace\<close> holds\<close>
  "isspace c = (c \<in> set [CHR 0x09, CHR 0x0A, CHR 0x0B, CHR 0x0C, CHR 0x0D,
      CHR 0x1C, CHR 0x1D, CHR 0x1E, CHR 0x1F, CHR 0x20, CHR 0x85, CHR 0xA0])"

definition lstrip :: "string \<Rightarrow> string" where
  "lstrip s = dropWhile isspace s"

definition rstrip :: "string \<Rightarrow> string" where
  "rstrip s = rev (dropWhile isspace (rev s))"

definition strip :: "string \<Rightarrow> string" where
  "strip s = lstrip (rstrip s)"

definition isupper :: "char \<Rightarrow> bool" where
  \<comment> \<open>the code points below 256 that \<open>str.lower\<close> changes: A-Z and the Latin-1
      capitals 0xC0-0xDE without the multiplication sign 0xD7\<close>
  "isupper c = (let n = (of_char c :: nat) in
     (65 \<le> n \<and> n \<le> 90) \<or> (192 \<le> n \<and> n \<le> 222 \<and> n \<noteq> 215))"

definition lower_char :: "char \<Rightarrow> char" where
  \<comment> \<open>the lower-case letter is 32 code points above: bit 5 is set\<close>
  "lower_char c = (if isupper c
     then (case c of Char b0 b1 b2 b3 b4 b5 b6 b7 \<Rightarrow> Char b0 b1 b2 b3 b4 True b6 b7)
     else c)"

definition lower :: "string \<Rightarrow> string" where
  "lower s = map lower_char s"

definition startswith :: "string \<Rightarrow> string \<Rightarrow> bool" where
  "startswith s pre = (take (length pre) s = pre)"

definition endswith :: "string \<Rightarrow> string \<Rightarrow> bool" where
  "endswith s suf = (length suf \<le> length s \<and> drop (length s - length suf) s = suf)"

fun str_in :: "string \<Rightarrow> string \<Rightarrow> bool" where
  \<comment> \<open>\<open>sub in s\<close>: \<open>sub\<close> occurs in \<open>s\<close> as a contiguous substring\<close>
  "str_in sub [] = (sub = [])"
| "str_in sub (c # cs) = (startswith (c # cs) sub \<or> str_in sub cs)"

fun str_join :: "string \<Rightarrow> string list \<Rightarrow> string" where
  \<comment> \<open>\<open>sep.join(xs)\<close>\<close>
  "str_join sep [] = []"
| "str_join sep [x] = x"
| "str_join sep (x # y # ys) = x @ sep @ str_join sep (y # ys)"

fun str_split :: "char \<Rightarrow> string \<Rightarrow> string list" where
  \<comment> \<open>\<open>s.split(c)\<close> for a separator of one character\<close>
  "str_split c [] = [[]]"
| "str_split c (x # xs) =
     (if x = c then [] # str_split c xs
      else (case str_split c xs of [] \<Rightarrow> [[x]] | y # ys \<Rightarrow> (x # y) # ys))"

definition linebreak :: "char \<Rightarrow> bool" where
  \<comment> \<open>the line boundaries of \<open>str.splitlines\<close> below 256, the pair CR LF apart\<close>
  "linebreak c = (c \<in> set [CHR 0x0A, CHR 0x0B, CHR 0x0C, CHR 0x0D,
      CHR 0x1C, CHR 0x1D, CHR 0x1E, CHR 0x85])"

fun splitlines_from :: "string \<Rightarrow> string \<Rightarrow> string list" where
  \<comment> \<open>\<open>cur\<close> is the line read so far; CR LF is one boundary; no empty last line\<close>
  "splitlines_from cur [] = (if cur = [] then [] else [cur])"
| "splitlines_from cur [c] = (if linebreak c then [cur] else [cur @ [c]])"
| "splitlines_from cur (c # d # ds) =
     (if c = CHR 0x0D \<and> d = CHR 0x0A then cur # splitlines_from [] ds
      else if linebreak c then cur # splitlines_from [] (d # ds)
      else splitlines_from (cur @ [c]) (d # ds))"

definition splitlines :: "string \<Rightarrow> string list" where
  "splitlines s = splitlines_from [] s"

definition list_index :: "'a \<Rightarrow> 'a list \<Rightarrow> nat" where
  \<comment> \<open>\<open>xs.index(x)\<close>, called only where \<open>x in xs\<close> has been tested\<close>
  "list_index x xs = length (takeWhile (\<lambda>y. y \<noteq> x) xs)"

definition list_index_from :: "'a \<Rightarrow> nat \<Rightarrow> 'a list \<Rightarrow> nat" where
  \<comment> \<open>\<open>xs.index(x, start)\<close>, called only where \<open>x in xs[start:]\<close> has been tested\<close>
  "list_index_from x start xs = start + list_index x (drop start xs)"

section \<open>Paths and the file system\<close>

text \<open>
  \<open>os.path\<close> is modelled in its POSIX flavour: \<open>os.sep\<close> is the slash and there is
  no alternative separator and no drive.
\<close>

definition os_sep :: char where
  "os_sep = CHR ''/''"

definition path_split :: "string \<Rightarrow> string \<times> string" where
  \<comment> \<open>\<open>os.path.split\<close>: the tail is what follows the last slash; the head loses its
      trailing slashes unless it consists of slashes only\<close>
  "path_split p =
     (let tail = rev (takeWhile (\<lambda>c. c \<noteq> os_sep) (rev p));
          head = rev (dropWhile (\<lambda>c. c \<noteq> os_sep) (rev p))
      in (if head \<noteq> [] \<and> head \<noteq> replicate (length head) os_sep
          then rev (dropWhile (\<lambda>c. c = os_sep) (rev head)) else head, tail))"

definition basename :: "string \<Rightarrow> string" where
  "basename p = rev (takeWhile (\<lambda>c. c \<noteq> os_sep) (rev p))"

definition join2 :: "string \<Rightarrow> string \<Rightarrow> string" where
  \<comment> \<open>one step of \<open>os.path.join\<close>: an absolute component discards what precedes it\<close>
  "join2 a b =
     (if startswith b [os_sep] \<and> b \<noteq> [] then b
      else if a = [] \<or> endswith a [os_sep] then a @ b
      else a @ [os_sep] @ b)"

fun path_join :: "string list \<Rightarrow> string" where
  \<comment> \<open>\<open>os.path.join(*segs)\<close>, called with at least one segment\<close>
  "path_join [] = []"
| "path_join (a # ps) = foldl join2 a ps"

definition splitext :: "string \<Rightarrow> string \<times> string" where
  \<comment> \<open>\<open>os.path.splitext\<close>: the extension starts at the last dot of the last component,
      unless only dots precede that dot in the component\<close>
  "splitext p =
     (let name = basename p;
          ext = rev (takeWhile (\<lambda>c. c \<noteq> CHR ''.'') (rev name));
          stem = take (length name - length ext - 1) name
      in if CHR ''.'' \<in> set name \<and> (\<exists>c \<in> set stem. c \<noteq> CHR ''.'')
         then (take (length p - length ext - 1) p, CHR ''.'' # ext)
         else (p, []))"

datatype node = File | Dir "(string \<times> node) list"

text \<open>
  A directory lists its entries in the order in which \<open>os.scandir\<close> returns them.
  There are no symbolic links.
\<close>

record filesys =
  root :: node
  cwd :: string

fun is_dir :: "node \<Rightarrow> bool" where
  "is_dir File = False"
| "is_dir (Dir es) = True"

fun descend :: "node list \<Rightarrow> string list \<Rightarrow> node option" where
  \<comment> \<open>walks the components of a path; the first list is the current node followed by its
      ancestors\<close>
  "descend [] cs = None"
| "descend (cur # anc) [] = Some cur"
| "descend (cur # anc) (c # cs) =
     (case cur of
        File \<Rightarrow> None
      | Dir es \<Rightarrow>
          if c = [] \<or> c = ''.'' then descend (cur # anc) cs
          else if c = ''..'' then descend (if anc = [] then [cur] else anc) cs
          else (case map_of es c of
                  None \<Rightarrow> None
                | Some n \<Rightarrow> descend (n # cur # anc) cs))"

definition resolve :: "filesys \<Rightarrow> string \<Rightarrow> node option" where
  \<comment> \<open>a relative path is resolved from the current directory; the empty path names nothing\<close>
  "resolve fs p =
     (if p = [] then None
      else descend [root fs]
        ((if startswith p [os_sep] then [] else str_split os_sep (cwd fs)) @ str_split os_sep p))"

datatype exn = BadZipFile | OtherError string

definition listdir :: "filesys \<Rightarrow> string \<Rightarrow> exn + string list" where
  \<comment> \<open>\<open>os.listdir\<close> raises an \<open>OSError\<close> unless the path names a directory\<close>
  "listdir fs p =
     (case resolve fs p of
        Some (Dir es) \<Rightarrow> Inr (map fst es)
      | _ \<Rightarrow> Inl (OtherError (''No such directory: '' @ p)))"

definition path_exists :: "filesys \<Rightarrow> string \<Rightarrow> bool" where
  "path_exists fs p = (resolve fs p \<noteq> None)"

fun walk_node :: "string \<Rightarrow> node \<Rightarrow> (string \<times> string list \<times> string list) list" where
  \<comment> \<open>\<open>os.walk\<close> top-down: the directory itself, then each of its subdirectories in order\<close>
  "walk_node tp File = []"
| "walk_node tp (Dir es) =
     (tp, map fst (filter (\<lambda>e. is_dir (snd e)) es), map fst (filter (\<lambda>e. \<not> is_dir (snd e)) es))
     # concat (map (\<lambda>e. walk_node (join2 tp (fst e)) (snd e)) (filter (\<lambda>e. is_dir (snd e)) es))"

definition os_walk :: "filesys \<Rightarrow> string \<Rightarrow> (string \<times> string list \<times> string list) list" where
  \<comment> \<open>a top that is not a directory yields nothing: the error of \<open>scandir\<close> is ignored\<close>
  "os_walk fs tp = (case resolve fs tp of Some n \<Rightarrow> walk_node tp n | None \<Rightarrow> [])"

section \<open>The installer: collecting package files\<close>

definition sort_key_fn :: "string \<Rightarrow> nat \<times> string" where
  \<comment> \<open>\<open>sort_key\<close> of \<open>_collect_apk_files\<close>\<close>
  "sort_key_fn p =
     (let name = lower (basename p)
      in (if str_in ''base'' name \<or> name = ''base.apk'' then 0 else 1, name))"

definition apk_candidates :: "filesys \<Rightarrow> string \<Rightarrow> string list" where
  \<comment> \<open>the two nested loops of \<open>_collect_apk_files\<close>, before sorting\<close>
  "apk_candidates fs root_dir =
     concat (map (\<lambda>(r, dirs, files).
                    map (\<lambda>fname. join2 r fname)
                      (filter (\<lambda>fname. endswith (lower fname) ''.apk'') files))
                 (os_walk fs root_dir))"

definition collect_apk_files :: "filesys \<Rightarrow> string \<Rightarrow> string list" where
  \<comment> \<open>\<open>list.sort\<close> is stable, as \<open>sort_key\<close> is\<close>
  "collect_apk_files fs root_dir = sort_key sort_key_fn (apk_candidates fs root_dir)"

text \<open>
  The files below a directory, each as the path of its directory and its name: what the
  claims call the contained files.
\<close>

fun contained_files :: "string \<Rightarrow> node \<Rightarrow> (string \<times> string) list" where
  "contained_files tp File = []"
| "contained_files tp (Dir es) =
     map (\<lambda>e. (tp, fst e)) (filter (\<lambda>e. \<not> is_dir (snd e)) es)
     @ concat (map (\<lambda>e. contained_files (join2 tp (fst e)) (snd e))
                 (filter (\<lambda>e. is_dir (snd e)) es))"

definition files_under :: "filesys \<Rightarrow> string \<Rightarrow> (string \<times> string) list" where
  "files_under fs d = (case resolve fs d of Some n \<Rightarrow> contained_files d n | None \<Rightarrow> [])"

definition has_base :: "string \<Rightarrow> bool" where
  \<comment> \<open>the test of \<open>sort_key\<close>: the lower-cased basename contains the token\<close>
  "has_base p = str_in ''base'' (lower (basename p))"

definition spec_sort_key :: "string \<Rightarrow> nat \<times> string" where
  \<comment> \<open>the order in the words of the specification: the token is looked for in the
      basename, and ties are broken by the basename\<close>
  "spec_sort_key p = (if str_in ''base'' (basename p) then 0 else 1, basename p)"

definition fs_mixed_case :: filesys where
  "fs_mixed_case =
     \<lparr> root = Dir [(''tmp'', Dir [(''sageadb_1'', Dir [(''B.apk'', File), (''a.apk'', File)])]),
                   (''home'', Dir [])],
       cwd = ''/home'' \<rparr>"

definition fs_base_split :: filesys where
  "fs_base_split =
     \<lparr> root = Dir [(''tmp'', Dir [(''sageadb_1'',
                      Dir [(''split1.apk'', File), (''icon.png'', File),
                           (''base_assets.apk'', File), (''base.apk'', File)])]),
                   (''home'', Dir [])],
       cwd = ''/home'' \<rparr>"

definition fs_abase :: filesys where
  \<comment> \<open>beside \<open>base.apk\<close>, a file whose name contains \<open>base\<close> and sorts before it\<close>
  "fs_abase =
     \<lparr> root = Dir [(''tmp'', Dir [(''sageadb_1'',
                      Dir [(''split1.apk'', File), (''base.apk'', File), (''abase.apk'', File)])]),
                   (''home'', Dir [])],
       cwd = ''/home'' \<rparr>"

section \<open>The installer: detecting asset directories\<close>

type_synonym dict = "(string \<times> string) list"

text \<open>
  A Python \<open>dict\<close> keeps its keys in the order of their first insertion, and an
  assignment to a key that is present replaces the value in place: \<open>AList.update\<close>.
\<close>

function path_parts_loop :: "string \<Rightarrow> string list \<Rightarrow> string list" where
  \<comment> \<open>the \<open>while True\<close> loop of \<open>_find_obb_package_dirs\<close>: the segments from leaf to root\<close>
  "path_parts_loop rp parts =
     (case path_split rp of
        (rp', tail) \<Rightarrow>
          if tail \<noteq> [] then path_parts_loop rp' (parts @ [tail])
          else if rp' \<noteq> [] then parts @ [rp'] else parts)"
  by pat_completeness auto
termination
proof (relation "measure (\<lambda>(rp, parts). length rp)")
  show "wf (measure (\<lambda>(rp, parts). length rp))" by simp
next
  fix rp :: string and parts :: "string list" and rp' tail :: string
  assume x: "(rp', tail) = path_split rp" and t: "tail \<noteq> []"
  let ?h = "rev (dropWhile (\<lambda>c. c \<noteq> os_sep) (rev rp))"
  let ?t = "rev (takeWhile (\<lambda>c. c \<noteq> os_sep) (rev rp))"
  from x have tl: "tail = ?t"
    and hd: "rp' = ?h \<or> rp' = rev (dropWhile (\<lambda>c. c = os_sep) (rev ?h))"
    by (auto simp: path_split_def Let_def split: if_splits)
  have "length (dropWhile (\<lambda>c. c \<noteq> os_sep) (rev rp)) + length (takeWhile (\<lambda>c. c \<noteq> os_sep) (rev rp))
      = length (takeWhile (\<lambda>c. c \<noteq> os_sep) (rev rp) @ dropWhile (\<lambda>c. c \<noteq> os_sep) (rev rp))"
    by (simp only: length_append add.commute)
  also have "\<dots> = length rp"
    by (simp only: takeWhile_dropWhile_id length_rev)
  finally have "length ?h + length ?t = length rp"
    by (simp only: length_rev)
  moreover have "length (rev (dropWhile (\<lambda>c. c = os_sep) (rev ?h))) \<le> length ?h"
    using length_dropWhile_le [of "\<lambda>c. c = os_sep" "rev ?h"] by simp
  moreover from t tl have "0 < length ?t" by (metis length_greater_0_conv)
  moreover from hd have "length rp' = length ?h
      \<or> length rp' = length (rev (dropWhile (\<lambda>c. c = os_sep) (rev ?h)))"
    by (metis (full_types))
  ultimately have "length rp' < length rp" by linarith
  then show "((rp', parts @ [tail]), (rp, parts)) \<in> measure (\<lambda>(rp, parts). length rp)"
    by simp
qed

definition is_obb_name :: "string \<Rightarrow> bool" where
  "is_obb_name f = endswith (lower f) ''.obb''"

fun scan_segments :: "filesys \<Rightarrow> string list \<Rightarrow> nat \<Rightarrow> string list \<Rightarrow> exn + (string \<times> string) option" where
  \<comment> \<open>the \<open>for i, seg in enumerate(path_segments)\<close> loop, at index \<open>i\<close> with the segments
      from \<open>i\<close> on: the first segment that reads \<open>obb\<close> and has a successor ends the loop;
      the result is the dictionary entry assigned, if any\<close>
  "scan_segments fs path_segments i [] = Inr None"
| "scan_segments fs path_segments i (seg # rest) =
     (if lower seg = ''obb'' \<and> i + 1 < length path_segments then
        (let pkg_dir_real = path_join (take (i + 2) path_segments)
         in case listdir fs pkg_dir_real of
              Inl ex \<Rightarrow> Inl ex
            | Inr names \<Rightarrow>
                if list_ex is_obb_name names
                then Inr (Some (basename pkg_dir_real, pkg_dir_real))
                else Inr None)
      else scan_segments fs path_segments (i + 1) rest)"

definition obb_try :: "filesys \<Rightarrow> string \<Rightarrow> exn + (string \<times> string) option" where
  \<comment> \<open>the body of the \<open>try\<close> for one directory \<open>r\<close> of the walk\<close>
  "obb_try fs r =
     (let parts = rev (map lower (path_parts_loop r []))
      in if ''android'' \<in> set parts then
           (let idx_android = list_index ''android'' parts
            in if ''obb'' \<in> set (drop (idx_android + 1) parts) then
                 (let idx_obb = list_index_from ''obb'' (idx_android + 1) parts
                  in if length parts > idx_obb + 1 then
                       (let path_segments = str_split os_sep r
                        in scan_segments fs path_segments 0 path_segments)
                     else Inr None)
               else Inr None)
         else Inr None)"

definition obb_visit :: "filesys \<Rightarrow> string \<times> string list \<times> string list \<Rightarrow> (string \<times> string) option" where
  \<comment> \<open>one iteration of the walk: the entry it assigns to \<open>obb_pkg_dirs\<close>, if any; an
      exception of the \<open>try\<close> body is swallowed\<close>
  "obb_visit fs entry =
     (case entry of (r, dirs, files) \<Rightarrow>
        if filter is_obb_name files = [] then None
        else (case obb_try fs r of Inl ex \<Rightarrow> None | Inr res \<Rightarrow> res))"

definition find_obb_package_dirs :: "filesys \<Rightarrow> string \<Rightarrow> dict" where
  "find_obb_package_dirs fs root_dir =
     foldl (\<lambda>obb_pkg_dirs entry.
              case obb_visit fs entry of
                None \<Rightarrow> obb_pkg_dirs
              | Some (k, v) \<Rightarrow> AList.update k v obb_pkg_dirs)
       [] (os_walk fs root_dir)"

definition obb_assignments :: "filesys \<Rightarrow> string \<Rightarrow> (string \<times> string) list" where
  \<comment> \<open>the assignments to \<open>obb_pkg_dirs\<close> in the order of the walk\<close>
  "obb_assignments fs root_dir = List.map_filter (obb_visit fs) (os_walk fs root_dir)"

definition fs_obb :: filesys where
  "fs_obb =
     \<lparr> root = Dir [(''tmp'', Dir [(''sageadb_1'',
                      Dir [(''base.apk'', File),
                           (''Android'', Dir [(''obb'', Dir [(''com.example.app'',
                               Dir [(''data.obb'', File)])])])])]),
                   (''home'', Dir [(''user'', Dir [])])],
       cwd = ''/home/user'' \<rparr>"

definition fs_obb_twice :: filesys where
  \<comment> \<open>two asset directories of one package, seen from the root directory\<close>
  "fs_obb_twice =
     \<lparr> root = Dir [(''tmp'', Dir [(''sageadb_1'',
                      Dir [(''a'', Dir [(''Android'', Dir [(''obb'', Dir [(''com.example.app'',
                               Dir [(''main.obb'', File)])])])]),
                           (''b'', Dir [(''Android'', Dir [(''obb'', Dir [(''com.example.app'',
                               Dir [(''patch.obb'', File)])])])])])])],
       cwd = ''/'' \<rparr>"

section \<open>The application state and its environment\<close>

text \<open>
  What the program obtains from outside is an oracle of the environment, asked with the
  number of the interaction (\<open>tick\<close>): the wall clock, whether a write to the session log
  file fails, how an external process ends, the temporary directory created, the content
  of an archive, and whether the removal of a directory tree fails. A write that fails
  comes with the message of its exception and with the number of characters of the entry
  that have reached the file before it: none when the file cannot be opened, some when
  the write raises after a part of the entry is on disk.
\<close>

datatype zip_result = NotAZip | ZipFails string | Extracted node

record env =
  clock :: "nat \<Rightarrow> string"
  write_error :: "nat \<Rightarrow> (string \<times> nat) option"
  subprocess_run :: "nat \<Rightarrow> string list \<Rightarrow> exn + string \<times> string"
  mkdtemp :: "nat \<Rightarrow> exn + string"
  zip_extract :: "nat \<Rightarrow> string \<Rightarrow> zip_result"
  rmtree_fails :: "nat \<Rightarrow> bool"

datatype qthread = QThread

record worker =
  is_running :: bool
  process :: "nat option"

datatype ui_op = ThreadStart | ThreadQuit | ThreadWait | ProcessTerminate nat

record world =
  tick :: nat
  fsys :: filesys
  log_output :: "string list"
  logcat_output :: "string list"
  debug_file :: string
  diagnostics :: "string list"
  modals :: "(string \<times> string) list"
  launched :: "string list list"
  install_apk_input :: string
  adb_path :: string
  base_path :: string
  logcat_thread :: "qthread option"
  logcat_worker :: "worker option"
  start_logcat_btn :: bool
  stop_logcat_btn :: bool
  ops :: "ui_op list"

text \<open>
  \<open>log_output\<close> and \<open>logcat_output\<close> are the entries appended to the two text views,
  \<open>debug_file\<close> is the content of the session log file, \<open>diagnostics\<close> is what
  \<open>print\<close> wrote, \<open>modals\<close> are the error dialogs shown (title and text),
  \<open>launched\<close> are the argument vectors given to \<open>subprocess.run\<close>, and \<open>ops\<close> are
  the operations of the main window on the log thread and on the worker's process.
\<close>

definition nl :: string where
  "nl = [CHR 0x0A]"

fun exn_str :: "exn \<Rightarrow> string" where
  \<comment> \<open>\<open>str(e)\<close>\<close>
  "exn_str BadZipFile = ''File is not a zip file''"
| "exn_str (OtherError msg) = msg"

definition critical :: "world \<Rightarrow> string \<Rightarrow> string \<Rightarrow> world" where
  \<comment> \<open>\<open>QMessageBox.critical\<close>\<close>
  "critical w title text = w\<lparr>modals := modals w @ [(title, text)]\<rparr>"

definition log :: "env \<Rightarrow> world \<Rightarrow> string \<Rightarrow> string \<Rightarrow> world" where
  \<comment> \<open>\<open>_log\<close>\<close>
  "log e w command output =
     (let timestamp = clock e (tick w);
          cmd_entry = ''['' @ timestamp @ ''] $ '' @ command;
          cleaned_output = strip output;
          shown = (if command \<noteq> [] then [cmd_entry] else [])
            @ (if output \<noteq> [] \<and> cleaned_output \<noteq> []
               then [''['' @ timestamp @ ''] > '' @ cleaned_output] else []);
          full_log_entry = (if command \<noteq> [] then cmd_entry @ nl else [])
            @ (if output \<noteq> [] \<and> cleaned_output \<noteq> []
               then concat (map (\<lambda>line. ''['' @ timestamp @ ''] > '' @ line @ nl)
                              (splitlines cleaned_output))
               else []);
          w1 = w\<lparr>tick := tick w + 1, log_output := log_output w @ shown\<rparr>
      in case write_error e (tick w) of
           None \<Rightarrow> w1\<lparr>debug_file := debug_file w1 @ full_log_entry\<rparr>
         | Some (msg, written) \<Rightarrow>
             w1\<lparr>debug_file := debug_file w1 @ take written full_log_entry,
                diagnostics := diagnostics w1 @ [''Failed to write to debug.txt: '' @ msg]\<rparr>)"

definition update_logcat_and_debug_file :: "env \<Rightarrow> world \<Rightarrow> string \<Rightarrow> world" where
  "update_logcat_and_debug_file e w line =
     (let w1 = w\<lparr>tick := tick w + 1, logcat_output := logcat_output w @ [line]\<rparr>;
          timestamp = clock e (tick w);
          entry = ''['' @ timestamp @ ''] [LOGCAT] '' @ line @ nl
      in case write_error e (tick w) of
           None \<Rightarrow> w1\<lparr>debug_file := debug_file w1 @ entry\<rparr>
         | Some (msg, written) \<Rightarrow>
             w1\<lparr>debug_file := debug_file w1 @ take written entry,
                diagnostics := diagnostics w1
                   @ [''Failed to write logcat line to debug.txt: '' @ msg]\<rparr>)"

definition run_process :: "env \<Rightarrow> world \<Rightarrow> string list \<Rightarrow> (exn + string \<times> string) \<times> world" where
  \<comment> \<open>\<open>subprocess.run\<close> with both outputs captured as text: it raises, or it returns
      the standard output and the standard error of the finished process\<close>
  "run_process e w args =
     (subprocess_run e (tick w) args, w\<lparr>tick := tick w + 1, launched := launched w @ [args]\<rparr>)"

definition run_adb_command :: "env \<Rightarrow> world \<Rightarrow> string list \<Rightarrow> bool \<Rightarrow> (exn + string option) \<times> world" where
  \<comment> \<open>\<open>Inr\<close> is a normal return with the value returned, \<open>Inl\<close> an exception that
      leaves the function\<close>
  "run_adb_command e w args return_output =
     (case run_process e w args of
        (Inr (out, err), w1) \<Rightarrow>
          (let output = strip out @ nl @ strip err;
               w2 = log e w1 (str_join '' '' args) output
           in (Inr (if return_output then Some out else None), w2))
      | (Inl ex, w1) \<Rightarrow>
          (let w2 = critical w1 ''Error'' (exn_str ex);
               w3 = log e w2 (''Error running command: '' @ str_join '' '' args) (exn_str ex)
           in (Inr None, w3)))"

section \<open>The installer: temporary directory and dispatch\<close>

fun norm_components :: "string list \<Rightarrow> string list \<Rightarrow> string list" where
  \<comment> \<open>the components of a path without the empty ones and the dots; the first list is
      the stack of the components kept, the last one first\<close>
  "norm_components acc [] = rev acc"
| "norm_components acc (c # cs) =
     (if c = [] \<or> c = ''.'' then norm_components acc cs
      else if c = ''..'' then norm_components (tl acc) cs
      else norm_components (c # acc) cs)"

definition abs_components :: "filesys \<Rightarrow> string \<Rightarrow> string list" where
  "abs_components fs p =
     norm_components []
       ((if startswith p [os_sep] then [] else str_split os_sep (cwd fs)) @ str_split os_sep p)"

fun entries :: "node \<Rightarrow> (string \<times> node) list" where
  "entries File = []"
| "entries (Dir es) = es"

fun put_node :: "string list \<Rightarrow> node \<Rightarrow> node \<Rightarrow> node" where
  \<comment> \<open>the tree with \<open>new\<close> at the place the components name\<close>
  "put_node [] new old = new"
| "put_node (c # cs) new old =
     (if c \<in> set (map fst (entries old))
      then Dir (map (\<lambda>e. if fst e = c then (c, put_node cs new (snd e)) else e) (entries old))
      else Dir (entries old @ [(c, put_node cs new (Dir []))]))"

fun remove_node :: "string list \<Rightarrow> node \<Rightarrow> node" where
  "remove_node [] n = n"
| "remove_node [c] n = (case n of File \<Rightarrow> File | Dir es \<Rightarrow> Dir (filter (\<lambda>e. fst e \<noteq> c) es))"
| "remove_node (c # cs) n =
     (case n of
        File \<Rightarrow> File
      | Dir es \<Rightarrow> Dir (map (\<lambda>e. if fst e = c then (c, remove_node cs (snd e)) else e) es))"

definition fs_put :: "filesys \<Rightarrow> string \<Rightarrow> node \<Rightarrow> filesys" where
  "fs_put fs p n = fs\<lparr>root := put_node (abs_components fs p) n (root fs)\<rparr>"

definition fs_remove :: "filesys \<Rightarrow> string \<Rightarrow> filesys" where
  "fs_remove fs p = fs\<lparr>root := remove_node (abs_components fs p) (root fs)\<rparr>"

definition bundletool_path :: "world \<Rightarrow> string" where
  "bundletool_path w = join2 (base_path w) ''bundletool.jar''"

definition extract_zip_to_temp :: "env \<Rightarrow> world \<Rightarrow> string \<Rightarrow> (exn + string) \<times> world" where
  \<comment> \<open>\<open>tempfile.mkdtemp\<close> creates the directory; opening the archive raises
      \<open>BadZipFile\<close> or another exception, or the archive is extracted into the directory\<close>
  "extract_zip_to_temp e w pkg_path =
     (case mkdtemp e (tick w) of
        Inl ex \<Rightarrow> (Inl ex, w\<lparr>tick := tick w + 1\<rparr>)
      | Inr temp_dir \<Rightarrow>
          (let w1 = w\<lparr>tick := tick w + 1, fsys := fs_put (fsys w) temp_dir (Dir [])\<rparr>
           in case zip_extract e (tick w1) pkg_path of
                NotAZip \<Rightarrow> (Inl BadZipFile, w1\<lparr>tick := tick w1 + 1\<rparr>)
              | ZipFails msg \<Rightarrow> (Inl (OtherError msg), w1\<lparr>tick := tick w1 + 1\<rparr>)
              | Extracted tree \<Rightarrow>
                  (Inr temp_dir,
                   w1\<lparr>tick := tick w1 + 1, fsys := fs_put (fsys w1) temp_dir tree\<rparr>)))"

definition rmtree :: "env \<Rightarrow> world \<Rightarrow> string \<Rightarrow> world" where
  \<comment> \<open>\<open>shutil.rmtree(temp_dir, ignore_errors=True)\<close>: a failure leaves the tree\<close>
  "rmtree e w p =
     (if rmtree_fails e (tick w) then w\<lparr>tick := tick w + 1\<rparr>
      else w\<lparr>tick := tick w + 1, fsys := fs_remove (fsys w) p\<rparr>)"

fun push_obb_dirs :: "env \<Rightarrow> world \<Rightarrow> dict \<Rightarrow> (exn + unit) \<times> world" where
  \<comment> \<open>the loop of \<open>_push_obb_dirs\<close> over the items of the dictionary\<close>
  "push_obb_dirs e w [] = (Inr (), w)"
| "push_obb_dirs e w ((pkg, local_dir) # rest) =
     (let remote_pkg_dir = ''/sdcard/Android/obb/'' @ pkg
      in case run_adb_command e w [adb_path w, ''shell'', ''mkdir'', ''-p'', remote_pkg_dir] False of
           (Inl ex, w1) \<Rightarrow> (Inl ex, w1)
         | (Inr r1, w1) \<Rightarrow>
             (let w2 = log e w1 [] (''Pushing OBB assets for '' @ pkg @ ''...'')
              in case run_adb_command e w2 [adb_path w2, ''push'', local_dir, remote_pkg_dir] False of
                   (Inl ex, w3) \<Rightarrow> (Inl ex, w3)
                 | (Inr r2, w3) \<Rightarrow> push_obb_dirs e w3 rest))"

definition install_multiple :: "env \<Rightarrow> world \<Rightarrow> string \<Rightarrow> string \<Rightarrow> (exn + unit) \<times> world" where
  \<comment> \<open>the part of the \<open>try\<close> body of \<open>install_app\<close> that installs the split packages\<close>
  "install_multiple e w ext temp_dir =
     (let apk_files = collect_apk_files (fsys w) temp_dir
      in if apk_files = []
         then (Inr (), log e w [] (''No .apk files found inside '' @ ext @ '' package.''))
         else (let cmd = [adb_path w, ''install-multiple''] @ apk_files
               in case run_process e w cmd of
                    (Inl ex, w1) \<Rightarrow> (Inl ex, w1)
                  | (Inr (out, err), w1) \<Rightarrow>
                      (Inr (), log e w1 (str_join '' '' cmd) (strip out @ nl @ strip err))))"

definition push_detected_obbs :: "env \<Rightarrow> world \<Rightarrow> string \<Rightarrow> (exn + unit) \<times> world" where
  \<comment> \<open>the part of the \<open>try\<close> body of \<open>install_app\<close> that detects and pushes the assets\<close>
  "push_detected_obbs e w temp_dir =
     (let obb_pkg_dirs = find_obb_package_dirs (fsys w) temp_dir
      in if obb_pkg_dirs \<noteq> []
         then (let pkgs = str_join '', '' (sort (map fst obb_pkg_dirs));
                   w1 = log e w [] (''Detected OBB packages: '' @ pkgs)
               in push_obb_dirs e w1 obb_pkg_dirs)
         else (Inr (), log e w [] ''No OBB assets detected in this package.''))"

definition split_try :: "env \<Rightarrow> world \<Rightarrow> string \<Rightarrow> string \<Rightarrow> (exn + unit) \<times> string option \<times> world" where
  \<comment> \<open>the \<open>try\<close> body of the third case of \<open>install_app\<close>; the second component is the
      value of the variable \<open>temp_dir\<close> when the body is left: \<open>None\<close> until
      \<open>_extract_zip_to_temp\<close> has returned\<close>
  "split_try e w path ext =
     (case extract_zip_to_temp e w path of
        (Inl ex, w1) \<Rightarrow> (Inl ex, None, w1)
      | (Inr temp_dir, w1) \<Rightarrow>
          (case install_multiple e w1 ext temp_dir of
             (Inl ex, w2) \<Rightarrow> (Inl ex, Some temp_dir, w2)
           | (Inr u, w2) \<Rightarrow>
               (case push_detected_obbs e w2 temp_dir of
                  (res, w3) \<Rightarrow> (res, Some temp_dir, w3))))"

definition install_split :: "env \<Rightarrow> world \<Rightarrow> string \<Rightarrow> string \<Rightarrow> (exn + unit) \<times> world" where
  \<comment> \<open>the third case of \<open>install_app\<close>: \<open>try\<close>, the two \<open>except\<close> clauses, \<open>finally\<close>\<close>
  "install_split e w path ext =
     (case split_try e w path ext of
        (res, temp_dir, w1) \<Rightarrow>
          (let w2 = (case res of
                       Inr u \<Rightarrow> w1
                     | Inl BadZipFile \<Rightarrow>
                         log e (critical w1 ''Error''
                                  (''Invalid '' @ ext @ '' file (not a valid ZIP archive).''))
                           [] (''Failed to read '' @ path @ '': invalid archive.'')
                     | Inl (OtherError msg) \<Rightarrow>
                         log e (critical w1 ''Error'' msg)
                           [] (''Error installing split package: '' @ msg));
               w3 = (case temp_dir of
                       None \<Rightarrow> w2
                     | Some td \<Rightarrow> if td \<noteq> [] then rmtree e w2 td else w2)
           in (Inr (), w3)))"

definition install_apks :: "env \<Rightarrow> world \<Rightarrow> string \<Rightarrow> (exn + unit) \<times> world" where
  \<comment> \<open>the second case of \<open>install_app\<close>\<close>
  "install_apks e w path =
     (let bt = bundletool_path w
      in if \<not> path_exists (fsys w) bt
         then (Inr (),
               log e (critical w ''Error'' (''bundletool.jar not found in:'' @ nl @ base_path w))
                 [] ''bundletool.jar is required to install .apks archives.'')
         else (let cmd = [''java'', ''-jar'', bt, ''install-apks'',
                          ''--apks='' @ path, ''--adb='' @ adb_path w]
               in case run_process e w cmd of
                    (Inr (out, err), w1) \<Rightarrow>
                      (Inr (), log e w1 (str_join '' '' cmd) (strip out @ nl @ strip err))
                  | (Inl ex, w1) \<Rightarrow>
                      (Inr (),
                       log e (critical w1 ''Error'' (exn_str ex)) (str_join '' '' cmd)
                         (''Error running bundletool: '' @ exn_str ex))))"

definition install_app :: "env \<Rightarrow> world \<Rightarrow> (exn + unit) \<times> world" where
  "install_app e w =
     (let path = strip (install_apk_input w)
      in if path = [] then (Inr (), log e w [] ''No APK path specified.'')
         else (let ext = lower (snd (splitext path))
               in if ext = ''.apk'' then
                    (case run_adb_command e w [adb_path w, ''install'', path] False of
                       (Inl ex, w1) \<Rightarrow> (Inl ex, w1)
                     | (Inr r, w1) \<Rightarrow> (Inr (), w1))
                  else if ext = ''.apks'' then install_apks e w path
                  else if ext \<in> set [''.apkm'', ''.xapk''] then install_split e w path ext
                  else (Inr (),
                        log e w [] (''Unsupported file type: '' @ ext
                                     @ ''. Supported: .apk, .apkm, .xapk, .apks''))))"

section \<open>The log stream\<close>

definition worker_stop :: "world \<Rightarrow> worker \<Rightarrow> world" where
  \<comment> \<open>\<open>LogcatWorker.stop\<close>, called by the main window on its worker; an exception of
      \<open>terminate\<close> is swallowed\<close>
  "worker_stop w wk =
     (let w1 = w\<lparr>logcat_worker := Some (wk\<lparr>is_running := False\<rparr>)\<rparr>
      in case process wk of
           None \<Rightarrow> w1
         | Some pid \<Rightarrow> w1\<lparr>ops := ops w1 @ [ProcessTerminate pid]\<rparr>)"

definition start_logcat :: "world \<Rightarrow> world" where
  "start_logcat w =
     w\<lparr>logcat_output := [],
       logcat_thread := Some QThread,
       logcat_worker := Some \<lparr>is_running = False, process = None\<rparr>,
       ops := ops w @ [ThreadStart],
       start_logcat_btn := False,
       stop_logcat_btn := True\<rparr>"

definition stop_logcat :: "world \<Rightarrow> world" where
  "stop_logcat w =
     (let w1 = (case logcat_worker w of None \<Rightarrow> w | Some wk \<Rightarrow> worker_stop w wk);
          w2 = (case logcat_thread w1 of
                  None \<Rightarrow> w1
                | Some t \<Rightarrow> w1\<lparr>ops := ops w1 @ [ThreadQuit, ThreadWait]\<rparr>)
      in w2\<lparr>logcat_thread := None, logcat_worker := None,
            start_logcat_btn := True, stop_logcat_btn := False\<rparr>)"

text \<open>
  \<open>LogcatWorker.run\<close> reads the output of the process it has started. The output is
  a sequence of read events that need not end; a line comes with the value that
  \<open>_is_running\<close> has when the loop tests it, since \<open>stop\<close> sets it from another
  thread. The results are the texts given to \<open>newLine.emit\<close>, in order, and the
  operations of the \<open>finally\<close> block on the process.
\<close>

datatype read_event = Line string bool | Eof | ReadFails string

datatype popen_result = PopenNotFound | PopenFails string | PopenOk "nat \<Rightarrow> read_event"

datatype proc_op = Terminate | Wait | Kill

record proc_end =
  alive_at_end :: bool
  wait_raises :: bool

partial_function (option) read_loop ::
  "(nat \<Rightarrow> read_event) \<Rightarrow> nat \<Rightarrow> string list \<Rightarrow> (string list \<times> string option) option" where
  \<comment> \<open>\<open>for line in self.process.stdout\<close>, at the read number \<open>i\<close>; the result is what
      has been emitted and the message of the exception that ended the loop, if one did\<close>
  "read_loop stdout i emitted =
     (case stdout i of
        Eof \<Rightarrow> Some (emitted, None)
      | ReadFails msg \<Rightarrow> Some (emitted, Some msg)
      | Line line running \<Rightarrow>
          if \<not> running then Some (emitted, None)
          else read_loop stdout (i + 1)
                 (if line \<noteq> [] then emitted @ [rstrip line] else emitted))"

definition stopped_msg :: string where
  "stopped_msg = ''Logcat stopped.''"

definition not_found_msg :: string where
  "not_found_msg = ''CRITICAL ERROR: adb executable not found. Make sure it'' @ [CHR 0x27]
     @ ''s in the same folder as the script.''"

definition finally_ops :: "bool \<Rightarrow> proc_end \<Rightarrow> proc_op list" where
  \<comment> \<open>the \<open>finally\<close> block before its emission: a process that has not exited is
      terminated and waited for, and killed when the wait raises; the exceptions of
      \<open>terminate\<close> and \<open>kill\<close> are swallowed\<close>
  "finally_ops has_process pe =
     (if has_process \<and> alive_at_end pe
      then [Terminate, Wait] @ (if wait_raises pe then [Kill] else [])
      else [])"

definition run :: "popen_result \<Rightarrow> proc_end \<Rightarrow> (string list \<times> proc_op list) option" where
  \<comment> \<open>\<open>None\<close>: the loop never ends, and \<open>run\<close> does not return\<close>
  "run popen pe =
     (case popen of
        PopenNotFound \<Rightarrow> Some ([not_found_msg] @ [stopped_msg], finally_ops False pe)
      | PopenFails msg \<Rightarrow>
          Some ([''CRITICAL ERROR starting logcat: '' @ msg] @ [stopped_msg],
                finally_ops False pe)
      | PopenOk stdout \<Rightarrow>
          (case read_loop stdout 0 [] of
             None \<Rightarrow> None
           | Some (emitted, None) \<Rightarrow> Some (emitted @ [stopped_msg], finally_ops True pe)
           | Some (emitted, Some msg) \<Rightarrow>
               Some (emitted @ [''CRITICAL ERROR starting logcat: '' @ msg] @ [stopped_msg],
                     finally_ops True pe)))"

fun stops :: "read_event \<Rightarrow> bool" where
  \<comment> \<open>the read events that end the loop: the end of the stream, an exception, and a line
      at which the stop request is seen\<close>
  "stops (Line line running) = (\<not> running)"
| "stops Eof = True"
| "stops (ReadFails msg) = True"

fun relayed_line :: "read_event \<Rightarrow> string list" where
  "relayed_line (Line line running) = (if running \<and> line \<noteq> [] then [rstrip line] else [])"
| "relayed_line Eof = []"
| "relayed_line (ReadFails msg) = []"

fun failure_line :: "read_event \<Rightarrow> string list" where
  "failure_line (ReadFails msg) = [''CRITICAL ERROR starting logcat: '' @ msg]"
| "failure_line (Line line running) = []"
| "failure_line Eof = []"

definition relayed :: "(nat \<Rightarrow> read_event) \<Rightarrow> nat \<Rightarrow> nat \<Rightarrow> string list" where
  \<comment> \<open>the lines of the reads \<open>i\<close> to \<open>i + k - 1\<close>, as they are emitted\<close>
  "relayed stdout i k = concat (map (\<lambda>j. relayed_line (stdout j)) [i..<i + k])"

definition run_body :: "popen_result \<Rightarrow> nat \<Rightarrow> string list" where
  \<comment> \<open>what \<open>run\<close> emits before its \<open>finally\<close> block when the loop ends at the read \<open>m\<close>\<close>
  "run_body popen m =
     (case popen of
        PopenNotFound \<Rightarrow> [not_found_msg]
      | PopenFails msg \<Rightarrow> [''CRITICAL ERROR starting logcat: '' @ msg]
      | PopenOk stdout \<Rightarrow> relayed stdout 0 m @ failure_line (stdout m))"

section \<open>The session log file\<close>

definition shown_entries :: "string \<Rightarrow> string \<Rightarrow> string \<Rightarrow> string list" where
  \<comment> \<open>the entries that a call of \<open>_log\<close> at the time \<open>ts\<close> appends to the log view\<close>
  "shown_entries ts command output =
     (if command \<noteq> [] then [''['' @ ts @ ''] $ '' @ command] else [])
     @ (if strip output \<noteq> [] then [''['' @ ts @ ''] > '' @ strip output] else [])"

definition written_lines :: "string \<Rightarrow> string \<Rightarrow> string \<Rightarrow> string list" where
  \<comment> \<open>the lines that the same call appends to the session log file: the prefix is
      repeated on every line of the output\<close>
  "written_lines ts command output =
     (if command \<noteq> [] then [''['' @ ts @ ''] $ '' @ command] else [])
     @ map (\<lambda>line. ''['' @ ts @ ''] > '' @ line) (splitlines (strip output))"

section \<open>Sample states\<close>

definition env_ok :: env where
  "env_ok =
     \<lparr> clock = (\<lambda>n. ''12:00:00''),
       write_error = (\<lambda>n. None),
       subprocess_run = (\<lambda>n args. Inr (''Success'' @ nl, [])),
       mkdtemp = (\<lambda>n. Inr ''/tmp/sageadb_1''),
       zip_extract = (\<lambda>n p. NotAZip),
       rmtree_fails = (\<lambda>n. False) \<rparr>"

definition env_no_adb :: env where
  "env_no_adb = env_ok\<lparr>subprocess_run := (\<lambda>n args. Inl (OtherError ''No such file: adb.exe''))\<rparr>"

definition env_disk_full :: env where
  \<comment> \<open>every write fails after ten characters of the entry\<close>
  "env_disk_full = env_ok\<lparr>write_error := (\<lambda>n. Some (''No space left on device'', 10))\<rparr>"

definition world0 :: world where
  "world0 =
     \<lparr> tick = 0,
       fsys = \<lparr> root = Dir [(''tmp'', Dir []), (''home'', Dir [(''user'', Dir [])])],
                cwd = ''/home/user'' \<rparr>,
       log_output = [],
       logcat_output = [],
       debug_file = [],
       diagnostics = [],
       modals = [],
       launched = [],
       install_apk_input = ''   '',
       adb_path = ''/home/user/adb.exe'',
       base_path = ''/home/user'',
       logcat_thread = None,
       logcat_worker = None,
       start_logcat_btn = True,
       stop_logcat_btn = False,
       ops = [] \<rparr>"

definition env_zip :: env where
  "env_zip = env_ok\<lparr>zip_extract := (\<lambda>n p. Extracted (Dir [(''base.apk'', File)]))\<rparr>"

definition world_xapk :: world where
  "world_xapk = world0\<lparr>install_apk_input := ''/home/user/game.xapk''\<rparr>"

definition world_txt :: world where
  "world_txt = world0\<lparr>install_apk_input := '' /home/user/notes.txt ''\<rparr>"

definition world_logging :: world where
  "world_logging =
     world0\<lparr>logcat_thread := Some QThread,
            logcat_worker := Some \<lparr>is_running = True, process = Some 4242\<rparr>,
            start_logcat_btn := False, stop_logcat_btn := True,
            ops := [ThreadStart]\<rparr>"

definition stream_stopped :: "nat \<Rightarrow> read_event" where
  \<comment> \<open>two lines are relayed, the stop request is seen at the third\<close>
  "stream_stopped n =
     (if n = 0 then Line (''first line'' @ nl) True
      else if n = 1 then Line (''second line'' @ nl) True
      else if n = 2 then Line (''third line'' @ nl) False
      else Eof)"

section \<open>Properties of the package file collection\<close>

lemma walk_files_flat:
  "concat (map (\<lambda>(r, dirs, files). map (\<lambda>f. (r, f)) files) (walk_node tp n)) = contained_files tp n"
proof (induction tp n rule: walk_node.induct)
  case (1 tp)
  show ?case by simp
next
  case (2 tp es)
  have "concat (map (\<lambda>(r, dirs, files). map (\<lambda>f. (r, f)) files)
           (concat (map (\<lambda>e. walk_node (join2 tp (fst e)) (snd e))
                      (filter (\<lambda>e. is_dir (snd e)) es))))
        = concat (map (\<lambda>e. contained_files (join2 tp (fst e)) (snd e))
                    (filter (\<lambda>e. is_dir (snd e)) es))"
    using 2 by (induction es) (auto simp: map_concat)
  then show ?case by (simp add: comp_def)
qed

lemma candidates_files:
  "apk_candidates fs d =
     map (\<lambda>(r, f). join2 r f) (filter (\<lambda>(r, f). endswith (lower f) ''.apk'') (files_under fs d))"
proof -
  have gen: "concat (map (\<lambda>(r, dirs, files). map (\<lambda>fname. join2 r fname)
                      (filter (\<lambda>fname. endswith (lower fname) ''.apk'') files)) ws)
      = map (\<lambda>(r, f). join2 r f) (filter (\<lambda>(r, f). endswith (lower f) ''.apk'')
          (concat (map (\<lambda>(r, dirs, files). map (\<lambda>f. (r, f)) files) ws)))" for ws
    by (induction ws) (auto simp: filter_map comp_def)
  show ?thesis
    unfolding apk_candidates_def files_under_def os_walk_def
    by (cases "resolve fs d") (simp_all add: gen walk_files_flat)
qed

lemma sorted_groups:
  fixes k :: "'a \<Rightarrow> nat \<times> string"
  assumes "sorted (map k xs)"
  shows "xs = filter (\<lambda>x. fst (k x) = 0) xs @ filter (\<lambda>x. fst (k x) \<noteq> 0) xs"
  using assms
proof (induction xs)
  case Nil
  show ?case by simp
next
  case (Cons x xs)
  show ?case
  proof (cases "fst (k x) = 0")
    case True
    with Cons show ?thesis by simp
  next
    case False
    have "\<forall>y \<in> set xs. fst (k y) \<noteq> 0"
    proof
      fix y assume "y \<in> set xs"
      with Cons.prems have "k x \<le> k y" by simp
      with False show "fst (k y) \<noteq> 0" by (auto simp: less_eq_prod_def)
    qed
    then have "filter (\<lambda>x. fst (k x) = 0) xs = []" "filter (\<lambda>x. fst (k x) \<noteq> 0) xs = xs"
      by (simp_all add: filter_empty_conv filter_id_conv)
    with False show ?thesis by simp
  qed
qed

lemma sorted_within_group:
  fixes k :: "'a \<Rightarrow> nat \<times> string"
  assumes "sorted (map k xs)" and "\<forall>x \<in> set xs. fst (k x) = c"
  shows "sorted (map (\<lambda>x. snd (k x)) xs)"
  using assms by (induction xs) (auto simp: less_eq_prod_def)

lemma sorted_map_filter: "sorted (map k xs) \<Longrightarrow> sorted (map k (filter P xs))"
  by (induction xs) auto

lemma key_fst: "fst (sort_key_fn p) = 0 \<longleftrightarrow> has_base p"
  by (auto simp: sort_key_fn_def has_base_def Let_def startswith_def)

lemma key_snd: "snd (sort_key_fn p) = lower (basename p)"
  by (simp add: sort_key_fn_def Let_def)

lemma key_fst_one: "\<not> has_base p \<Longrightarrow> fst (sort_key_fn p) = 1"
  by (auto simp: sort_key_fn_def has_base_def Let_def startswith_def)

lemma collect_groups:
  "collect_apk_files fs d =
     filter has_base (collect_apk_files fs d) @ filter (\<lambda>p. \<not> has_base p) (collect_apk_files fs d)"
proof -
  have "sorted (map sort_key_fn (collect_apk_files fs d))"
    by (simp add: collect_apk_files_def)
  from sorted_groups [OF this] show ?thesis by (simp add: key_fst)
qed

lemma collect_group_sorted:
  "sorted (map (\<lambda>p. lower (basename p)) (filter has_base (collect_apk_files fs d)))"
  "sorted (map (\<lambda>p. lower (basename p)) (filter (\<lambda>p. \<not> has_base p) (collect_apk_files fs d)))"
proof -
  have s: "sorted (map sort_key_fn (collect_apk_files fs d))"
    by (simp add: collect_apk_files_def)
  have "sorted (map (\<lambda>p. snd (sort_key_fn p)) (filter has_base (collect_apk_files fs d)))"
    by (rule sorted_within_group [where c = 0, OF sorted_map_filter [OF s]]) (simp add: key_fst)
  then show "sorted (map (\<lambda>p. lower (basename p)) (filter has_base (collect_apk_files fs d)))"
    by (simp add: key_snd)
  have "sorted (map (\<lambda>p. snd (sort_key_fn p)) (filter (\<lambda>p. \<not> has_base p) (collect_apk_files fs d)))"
    by (rule sorted_within_group [where c = 1, OF sorted_map_filter [OF s]])
       (simp add: key_fst_one)
  then show "sorted (map (\<lambda>p. lower (basename p))
      (filter (\<lambda>p. \<not> has_base p) (collect_apk_files fs d)))"
    by (simp add: key_snd)
qed

lemma has_base_names:
  "basename p = ''base.apk'' \<Longrightarrow> has_base p"
  "basename q = ''split1.apk'' \<Longrightarrow> \<not> has_base q"
  by (simp_all add: has_base_def lower_def lower_char_def isupper_def startswith_def)

lemma sorted_hd_least:
  fixes k :: "'a \<Rightarrow> nat \<times> string"
  assumes "sorted (map k xs)" and "p \<in> set xs" and "\<forall>r \<in> set xs. r \<noteq> p \<longrightarrow> k p < k r"
  shows "xs = p # tl xs"
proof (cases xs)
  case Nil
  with assms(2) show ?thesis by simp
next
  case (Cons x rest)
  have "x = p"
  proof (rule ccontr)
    assume ne: "x \<noteq> p"
    with assms(2) Cons have "p \<in> set rest" by simp
    with assms(1) Cons have "k x \<le> k p" by simp
    moreover from assms(3) ne Cons have "k p < k x" by simp
    ultimately show False by simp
  qed
  with Cons show ?thesis by simp
qed

lemma base_apk_key_least:
  assumes "basename p = ''base.apk''"
    and "has_base r \<longrightarrow> ''base.apk'' < lower (basename r)"
  shows "sort_key_fn p < sort_key_fn r"
proof -
  from assms(1) have "has_base p" by (rule has_base_names)
  then have fp: "fst (sort_key_fn p) = 0" by (simp add: key_fst)
  from assms(1) have sp: "snd (sort_key_fn p) = ''base.apk''"
    by (simp add: key_snd lower_def lower_char_def isupper_def)
  show ?thesis
  proof (cases "has_base r")
    case True
    then have "fst (sort_key_fn r) = 0" by (simp add: key_fst)
    moreover from True assms(2) have "''base.apk'' < snd (sort_key_fn r)" by (simp add: key_snd)
    ultimately show ?thesis using fp sp by (simp add: less_prod_def)
  next
    case False
    then have "fst (sort_key_fn r) = 1" by (rule key_fst_one)
    with fp show ?thesis by (simp add: less_prod_def)
  qed
qed

text \<open>
  C3, as the specification words it, fails in two ways. The code compares lower-cased
  basenames, so of \<open>B.apk\<close> and \<open>a.apk\<close> it returns \<open>a.apk\<close> first, while a tie
  broken by the basename puts \<open>B.apk\<close> first. And in an archive that holds
  \<open>abase.apk\<close> beside \<open>base.apk\<close> and \<open>split1.apk\<close>, the first file returned is
  \<open>abase.apk\<close>, not \<open>base.apk\<close>: every name that contains \<open>base\<close> is in the
  first group, and \<open>base.apk\<close> has no rank of its own there.
\<close>

theorem collect_apk_files_order_counterexample:
  "collect_apk_files fs_mixed_case ''/tmp/sageadb_1''
     = [''/tmp/sageadb_1/a.apk'', ''/tmp/sageadb_1/B.apk'']
   \<and> \<not> sorted (map spec_sort_key (collect_apk_files fs_mixed_case ''/tmp/sageadb_1''))
   \<and> collect_apk_files fs_abase ''/tmp/sageadb_1''
       = [''/tmp/sageadb_1/abase.apk'', ''/tmp/sageadb_1/base.apk'', ''/tmp/sageadb_1/split1.apk'']
   \<and> hd (collect_apk_files fs_abase ''/tmp/sageadb_1'') \<noteq> ''/tmp/sageadb_1/base.apk''"
  by code_simp

text \<open>
  C3, amended: \<open>_collect_apk_files\<close> returns exactly the contained files whose name
  ends in \<open>.apk\<close> when lower-cased; every file whose lower-cased basename contains
  \<open>base\<close> precedes every file whose lower-cased basename does not; within each of the
  two groups the files are in ascending order of the lower-cased basename, files of equal
  key keeping the order of the walk; in particular, in an archive with files named
  \<open>base.apk\<close> and \<open>split1.apk\<close>, \<open>base.apk\<close> is placed first, with
  \<open>split1.apk\<close> behind it, when every other file returned whose lower-cased basename
  contains \<open>base\<close> has a lower-cased basename that sorts after \<open>base.apk\<close>. What is
  first when another such name sorts before \<open>base.apk\<close> is left open.
\<close>

theorem collect_apk_files_order:
  "mset (collect_apk_files fs d) =
     mset (map (\<lambda>(r, f). join2 r f)
            (filter (\<lambda>(r, f). endswith (lower f) ''.apk'') (files_under fs d)))
   \<and> collect_apk_files fs d =
       filter has_base (collect_apk_files fs d) @ filter (\<lambda>p. \<not> has_base p) (collect_apk_files fs d)
   \<and> sorted (map (\<lambda>p. lower (basename p)) (filter has_base (collect_apk_files fs d)))
   \<and> sorted (map (\<lambda>p. lower (basename p)) (filter (\<lambda>p. \<not> has_base p) (collect_apk_files fs d)))
   \<and> filter (\<lambda>p. sort_key_fn p = k) (collect_apk_files fs d) =
       filter (\<lambda>p. sort_key_fn p = k) (apk_candidates fs d)
   \<and> (p \<in> set (collect_apk_files fs d) \<and> q \<in> set (collect_apk_files fs d)
        \<and> basename p = ''base.apk'' \<and> basename q = ''split1.apk''
        \<and> (\<forall>r \<in> set (collect_apk_files fs d).
              r \<noteq> p \<and> has_base r \<longrightarrow> ''base.apk'' < lower (basename r))
      \<longrightarrow> collect_apk_files fs d = p # tl (collect_apk_files fs d)
          \<and> q \<in> set (tl (collect_apk_files fs d)))"
proof (intro conjI impI)
  show "mset (collect_apk_files fs d) =
     mset (map (\<lambda>(r, f). join2 r f)
            (filter (\<lambda>(r, f). endswith (lower f) ''.apk'') (files_under fs d)))"
    by (simp add: collect_apk_files_def candidates_files)
  show "collect_apk_files fs d =
       filter has_base (collect_apk_files fs d) @ filter (\<lambda>p. \<not> has_base p) (collect_apk_files fs d)"
    by (rule collect_groups)
  show "sorted (map (\<lambda>p. lower (basename p)) (filter has_base (collect_apk_files fs d)))"
    by (rule collect_group_sorted)
  show "sorted (map (\<lambda>p. lower (basename p)) (filter (\<lambda>p. \<not> has_base p) (collect_apk_files fs d)))"
    by (rule collect_group_sorted)
  show "filter (\<lambda>p. sort_key_fn p = k) (collect_apk_files fs d) =
       filter (\<lambda>p. sort_key_fn p = k) (apk_candidates fs d)"
    unfolding collect_apk_files_def by (rule sort_key_stable)
next
  assume a: "p \<in> set (collect_apk_files fs d) \<and> q \<in> set (collect_apk_files fs d)
        \<and> basename p = ''base.apk'' \<and> basename q = ''split1.apk''
        \<and> (\<forall>r \<in> set (collect_apk_files fs d).
              r \<noteq> p \<and> has_base r \<longrightarrow> ''base.apk'' < lower (basename r))"
  let ?c = "collect_apk_files fs d"
  have s: "sorted (map sort_key_fn ?c)"
    by (simp add: collect_apk_files_def)
  have least: "\<forall>r \<in> set ?c. r \<noteq> p \<longrightarrow> sort_key_fn p < sort_key_fn r"
  proof (intro ballI impI)
    fix r assume "r \<in> set ?c" and "r \<noteq> p"
    with a have "has_base r \<longrightarrow> ''base.apk'' < lower (basename r)" by blast
    with a show "sort_key_fn p < sort_key_fn r" by (intro base_apk_key_least) simp_all
  qed
  from a have "p \<in> set ?c" by simp
  from sorted_hd_least [OF s this least] show first: "?c = p # tl ?c" .
  from a have "q \<noteq> p" by auto
  moreover from a have "q \<in> set ?c" by simp
  ultimately show "q \<in> set (tl ?c)" using first by (metis set_ConsD)
qed

theorem collect_apk_files_order_witness:
  "''/tmp/sageadb_1/base.apk'' \<in> set (collect_apk_files fs_base_split ''/tmp/sageadb_1'')
   \<and> ''/tmp/sageadb_1/split1.apk'' \<in> set (collect_apk_files fs_base_split ''/tmp/sageadb_1'')
   \<and> basename ''/tmp/sageadb_1/base.apk'' = ''base.apk''
   \<and> basename ''/tmp/sageadb_1/split1.apk'' = ''split1.apk''
   \<and> list_all (\<lambda>r. r \<noteq> ''/tmp/sageadb_1/base.apk'' \<and> has_base r
                    \<longrightarrow> ''base.apk'' < lower (basename r))
        (collect_apk_files fs_base_split ''/tmp/sageadb_1'')
   \<and> ''/tmp/sageadb_1/base_assets.apk'' \<in> set (collect_apk_files fs_base_split ''/tmp/sageadb_1'')
   \<and> has_base ''/tmp/sageadb_1/base_assets.apk''
   \<and> collect_apk_files fs_base_split ''/tmp/sageadb_1''
       = ''/tmp/sageadb_1/base.apk'' # tl (collect_apk_files fs_base_split ''/tmp/sageadb_1'')
   \<and> ''/tmp/sageadb_1/split1.apk'' \<in> set (tl (collect_apk_files fs_base_split ''/tmp/sageadb_1''))"
proof -
  have h: "''/tmp/sageadb_1/base.apk'' \<in> set (collect_apk_files fs_base_split ''/tmp/sageadb_1'')
     \<and> ''/tmp/sageadb_1/split1.apk'' \<in> set (collect_apk_files fs_base_split ''/tmp/sageadb_1'')
     \<and> basename ''/tmp/sageadb_1/base.apk'' = ''base.apk''
     \<and> basename ''/tmp/sageadb_1/split1.apk'' = ''split1.apk''
     \<and> list_all (\<lambda>r. r \<noteq> ''/tmp/sageadb_1/base.apk'' \<and> has_base r
                    \<longrightarrow> ''base.apk'' < lower (basename r))
          (collect_apk_files fs_base_split ''/tmp/sageadb_1'')
     \<and> ''/tmp/sageadb_1/base_assets.apk'' \<in> set (collect_apk_files fs_base_split ''/tmp/sageadb_1'')
     \<and> has_base ''/tmp/sageadb_1/base_assets.apk''"
    by code_simp
  from collect_apk_files_order [of fs_base_split "''/tmp/sageadb_1''" _
      "''/tmp/sageadb_1/base.apk''" "''/tmp/sageadb_1/split1.apk''"] h
  show ?thesis by (simp add: list_all_iff)
qed

section \<open>Properties of the asset directory detection\<close>

lemma find_obb_fold:
  "map_of (foldl (\<lambda>obb_pkg_dirs entry.
              case obb_visit fs entry of
                None \<Rightarrow> obb_pkg_dirs
              | Some (k, v) \<Rightarrow> AList.update k v obb_pkg_dirs) al ws)
   = map_of (rev (List.map_filter (obb_visit fs) ws) @ al)"
proof (induction ws arbitrary: al)
  case Nil
  show ?case by (simp add: map_filter_simps)
next
  case (Cons w ws)
  show ?case
  proof (cases "obb_visit fs w")
    case None
    then show ?thesis by (simp add: Cons map_filter_simps)
  next
    case (Some kv)
    obtain k v where kv: "kv = (k, v)" by (cases kv)
    have "map_of (AList.update k v al) = map_of ([(k, v)] @ al)"
      by (simp add: update_conv')
    then have "map_of (rev (List.map_filter (obb_visit fs) ws) @ AList.update k v al)
        = map_of (rev (List.map_filter (obb_visit fs) ws) @ [(k, v)] @ al)"
      by (simp only: map_of_append)
    with Some kv show ?thesis by (simp add: Cons map_filter_simps)
  qed
qed

lemma find_obb_distinct_fold:
  "distinct (map fst al) \<Longrightarrow>
   distinct (map fst (foldl (\<lambda>obb_pkg_dirs entry.
              case obb_visit fs entry of
                None \<Rightarrow> obb_pkg_dirs
              | Some (k, v) \<Rightarrow> AList.update k v obb_pkg_dirs) al ws))"
  by (induction ws arbitrary: al) (auto simp: distinct_update split: option.splits)

text \<open>
  C5: at an extraction tree in an absolute temporary directory, as \<open>install_app\<close>
  passes it, with the asset file \<open>Android/obb/com.example.app/data.obb\<close> below it, the
  path rebuilt from \<open>r.split(os.sep)\<close> has lost its leading slash, \<open>os.listdir\<close>
  of it fails in the working directory, the exception is swallowed, and the mapping
  returned is empty. The same tree under a relative root is detected.
\<close>

theorem find_obb_package_dirs_absolute_root_empty:
  "(''/tmp/sageadb_1/Android/obb/com.example.app'', ''data.obb'') \<in> set (files_under fs_obb ''/tmp/sageadb_1'')
   \<and> path_join (take 6 (str_split os_sep ''/tmp/sageadb_1/Android/obb/com.example.app''))
       = ''tmp/sageadb_1/Android/obb/com.example.app''
   \<and> listdir fs_obb ''tmp/sageadb_1/Android/obb/com.example.app''
       = Inl (OtherError ''No such directory: tmp/sageadb_1/Android/obb/com.example.app'')
   \<and> find_obb_package_dirs fs_obb ''/tmp/sageadb_1'' = []
   \<and> find_obb_package_dirs (fs_obb\<lparr>cwd := ''/tmp''\<rparr>) ''sageadb_1''
       = [(''com.example.app'', ''sageadb_1/Android/obb/com.example.app'')]"
  by code_simp

text \<open>
  C8: when the walk assigns several directories to the same package identifier, the
  mapping returned holds the directory assigned last, and holds the identifier once.
\<close>

theorem find_obb_package_dirs_last_wins:
  assumes "obb_assignments fs root_dir = ys @ (pkg, d) # zs"
    and "pkg \<notin> fst ` set zs"
  shows "map_of (find_obb_package_dirs fs root_dir) pkg = Some d
    \<and> distinct (map fst (find_obb_package_dirs fs root_dir))"
proof
  have "map_of (find_obb_package_dirs fs root_dir) = map_of (rev (obb_assignments fs root_dir))"
    unfolding find_obb_package_dirs_def obb_assignments_def
    by (simp add: find_obb_fold)
  also have "\<dots> = map_of (rev zs @ (pkg, d) # rev ys)"
    by (simp add: assms(1))
  finally have "map_of (find_obb_package_dirs fs root_dir) pkg
      = map_of (rev zs @ (pkg, d) # rev ys) pkg"
    by simp
  also from assms(2) have "map_of (rev zs) pkg = None"
    by (simp add: map_of_eq_None_iff)
  then have "map_of (rev zs @ (pkg, d) # rev ys) pkg = Some d"
    by (simp add: map_add_def)
  finally show "map_of (find_obb_package_dirs fs root_dir) pkg = Some d" .
  show "distinct (map fst (find_obb_package_dirs fs root_dir))"
    unfolding find_obb_package_dirs_def by (rule find_obb_distinct_fold) simp
qed

theorem find_obb_package_dirs_last_wins_witness:
  "obb_assignments fs_obb_twice ''/tmp/sageadb_1''
     = [(''com.example.app'', ''tmp/sageadb_1/a/Android/obb/com.example.app'')]
       @ (''com.example.app'', ''tmp/sageadb_1/b/Android/obb/com.example.app'') # []
   \<and> ''com.example.app'' \<notin> fst ` set ([] :: (string \<times> string) list)
   \<and> map_of (find_obb_package_dirs fs_obb_twice ''/tmp/sageadb_1'') ''com.example.app''
       = Some ''tmp/sageadb_1/b/Android/obb/com.example.app''
   \<and> distinct (map fst (find_obb_package_dirs fs_obb_twice ''/tmp/sageadb_1''))"
proof -
  have h1: "obb_assignments fs_obb_twice ''/tmp/sageadb_1''
     = [(''com.example.app'', ''tmp/sageadb_1/a/Android/obb/com.example.app'')]
       @ (''com.example.app'', ''tmp/sageadb_1/b/Android/obb/com.example.app'') # []"
    by code_simp
  have h2: "''com.example.app'' \<notin> fst ` set ([] :: (string \<times> string) list)"
    by simp
  from find_obb_package_dirs_last_wins [OF h1 h2] h1 h2 show ?thesis by simp
qed

section \<open>Properties of the log stream\<close>

lemma read_loop_stops:
  "stops (stdout i) \<Longrightarrow>
   read_loop stdout i em
     = Some (em, case stdout i of ReadFails msg \<Rightarrow> Some msg | _ \<Rightarrow> None)"
  by (subst read_loop.simps) (cases "stdout i"; simp)

lemma read_loop_step:
  "\<not> stops (stdout i) \<Longrightarrow>
   read_loop stdout i em = read_loop stdout (i + 1) (em @ relayed_line (stdout i))"
  by (subst read_loop.simps) (cases "stdout i"; simp)

lemma read_loop_first_stop:
  "stops (stdout (i + k)) \<Longrightarrow> \<forall>j<k. \<not> stops (stdout (i + j)) \<Longrightarrow>
   read_loop stdout i em
     = Some (em @ relayed stdout i k,
             case stdout (i + k) of ReadFails msg \<Rightarrow> Some msg | _ \<Rightarrow> None)"
proof (induction k arbitrary: i em)
  case 0
  then show ?case by (simp add: read_loop_stops relayed_def)
next
  case (Suc k)
  from Suc.prems(2) have ns: "\<not> stops (stdout i)" by (metis add.right_neutral zero_less_Suc)
  have "read_loop stdout (i + 1) (em @ relayed_line (stdout i))
      = Some ((em @ relayed_line (stdout i)) @ relayed stdout (i + 1) k,
              case stdout (i + 1 + k) of ReadFails msg \<Rightarrow> Some msg | _ \<Rightarrow> None)"
  proof (rule Suc.IH)
    from Suc.prems(1) show "stops (stdout (i + 1 + k))" by simp
    show "\<forall>j<k. \<not> stops (stdout (i + 1 + j))"
    proof (intro allI impI)
      fix j assume "j < k"
      then have "Suc j < Suc k" by simp
      with Suc.prems(2) have "\<not> stops (stdout (i + Suc j))" by blast
      then show "\<not> stops (stdout (i + 1 + j))" by simp
    qed
  qed
  moreover have "relayed_line (stdout i) @ relayed stdout (i + 1) k = relayed stdout i (Suc k)"
  proof -
    have "[i..<i + Suc k] = i # [Suc i..<i + Suc k]" by (rule upt_conv_Cons) simp
    then show ?thesis by (simp add: relayed_def)
  qed
  ultimately show ?case using ns by (simp add: read_loop_step)
qed

lemma first_stop_exists:
  "stops ((stdout :: nat \<Rightarrow> read_event) n) \<Longrightarrow>
   \<exists>m\<le>n. stops (stdout m) \<and> (\<forall>j<m. \<not> stops (stdout j))"
proof (induction n rule: less_induct)
  case (less n)
  show ?case
  proof (cases "\<exists>j<n. stops (stdout j)")
    case True
    then obtain j where j: "j < n" "stops (stdout j)" by blast
    from less.IH [OF j] obtain m where "m \<le> j" "stops (stdout m)" "\<forall>j<m. \<not> stops (stdout j)"
      by blast
    with j(1) show ?thesis by (intro exI [of _ m]) simp
  next
    case False
    with less.prems show ?thesis by (intro exI [of _ n]) simp
  qed
qed

lemma run_at_first_stop:
  assumes "stops (stdout m)" and "\<forall>j<m. \<not> stops (stdout j)"
  shows "run (PopenOk stdout) pe
     = Some (run_body (PopenOk stdout) m @ [stopped_msg], finally_ops True pe)"
proof -
  from assms have "read_loop stdout 0 []
      = Some ([] @ relayed stdout 0 m, case stdout (0 + m) of ReadFails msg \<Rightarrow> Some msg | _ \<Rightarrow> None)"
    by (intro read_loop_first_stop) simp_all
  then show ?thesis
    by (cases "stdout m") (simp_all add: run_def run_body_def)
qed

lemma failure_line_not_stopped: "count_list (failure_line ev) stopped_msg = 0"
  by (cases ev) (simp_all add: stopped_msg_def)

lemma not_found_not_stopped: "not_found_msg \<noteq> stopped_msg"
  by (simp add: not_found_msg_def stopped_msg_def)

text \<open>
  C4: on every path on which \<open>run\<close> returns (the binary is missing, the launch
  fails, the stream ends, a read raises, a stop request is seen) the notifications
  emitted are those of the \<open>try\<close> and \<open>except\<close> blocks followed by one
  \<open>Logcat stopped.\<close>, which is thus the last one and is emitted once by the run; that
  text occurs elsewhere in the sequence only as a line of the process itself.
\<close>

theorem run_emits_stopped_once:
  assumes "case popen of PopenOk stdout \<Rightarrow> stops (stdout n) | _ \<Rightarrow> True"
  shows "\<exists>m\<le>n. \<exists>proc_ops.
           run popen pe = Some (run_body popen m @ [stopped_msg], proc_ops)
           \<and> last (run_body popen m @ [stopped_msg]) = stopped_msg
           \<and> count_list (run_body popen m @ [stopped_msg]) stopped_msg
               = Suc (case popen of
                        PopenOk stdout \<Rightarrow> count_list (relayed stdout 0 m) stopped_msg
                      | _ \<Rightarrow> 0)"
proof (cases popen)
  case PopenNotFound
  then show ?thesis
    by (intro exI [of _ n]) (simp add: run_def run_body_def not_found_not_stopped)
next
  case (PopenFails msg)
  then show ?thesis
    by (intro exI [of _ n]) (simp add: run_def run_body_def stopped_msg_def)
next
  case (PopenOk stdout)
  with assms have "stops (stdout n)" by simp
  from first_stop_exists [of stdout n, OF this] obtain m
    where m: "m \<le> n" "stops (stdout m)" "\<forall>j<m. \<not> stops (stdout j)" by blast
  have "run popen pe = Some (run_body popen m @ [stopped_msg], finally_ops True pe)"
    using run_at_first_stop [OF m(2,3)] PopenOk by simp
  moreover have "count_list (run_body popen m @ [stopped_msg]) stopped_msg
      = Suc (count_list (relayed stdout 0 m) stopped_msg)"
    using PopenOk by (simp add: run_body_def failure_line_not_stopped)
  ultimately show ?thesis using m(1) PopenOk by (intro exI [of _ m]) simp
qed

theorem run_emits_stopped_once_witness:
  "(case PopenOk stream_stopped of PopenOk stdout \<Rightarrow> stops (stdout 2) | _ \<Rightarrow> True)
   \<and> (\<exists>m\<le>2. \<exists>proc_ops.
         run (PopenOk stream_stopped) \<lparr>alive_at_end = True, wait_raises = False\<rparr>
           = Some (run_body (PopenOk stream_stopped) m @ [stopped_msg], proc_ops)
         \<and> last (run_body (PopenOk stream_stopped) m @ [stopped_msg]) = stopped_msg
         \<and> count_list (run_body (PopenOk stream_stopped) m @ [stopped_msg]) stopped_msg
             = Suc (case PopenOk stream_stopped of
                      PopenOk stdout \<Rightarrow> count_list (relayed stdout 0 m) stopped_msg
                    | _ \<Rightarrow> 0))
   \<and> run (PopenOk stream_stopped) \<lparr>alive_at_end = True, wait_raises = False\<rparr>
       = Some ([''first line'', ''second line'', ''Logcat stopped.''], [Terminate, Wait])"
proof -
  have h: "case PopenOk stream_stopped of PopenOk stdout \<Rightarrow> stops (stdout 2) | _ \<Rightarrow> True"
    by (simp add: stream_stopped_def)
  have v: "run (PopenOk stream_stopped) \<lparr>alive_at_end = True, wait_raises = False\<rparr>
       = Some ([''first line'', ''second line'', ''Logcat stopped.''], [Terminate, Wait])"
    by (simp add: run_def read_loop.simps stream_stopped_def rstrip_def isspace_def nl_def
        finally_ops_def stopped_msg_def)
  from run_emits_stopped_once [OF h] h v show ?thesis by blast
qed

section \<open>Properties of the main window\<close>

text \<open>
  C9: without an active log worker \<open>stop_logcat\<close> performs no operation on a thread
  or a process and changes nothing but the two buttons; a second call changes nothing,
  and after any call there is no thread and no worker, the start button is enabled and
  the stop button is disabled. The model of \<open>stop_logcat\<close> has no raising branch: the
  exception of \<open>terminate\<close> is swallowed by \<open>LogcatWorker.stop\<close>.
\<close>

theorem stop_logcat_idempotent:
  "stop_logcat (stop_logcat w) = stop_logcat w
   \<and> logcat_thread (stop_logcat w) = None
   \<and> logcat_worker (stop_logcat w) = None
   \<and> start_logcat_btn (stop_logcat w)
   \<and> \<not> stop_logcat_btn (stop_logcat w)
   \<and> (logcat_thread w = None \<and> logcat_worker w = None \<longrightarrow>
        ops (stop_logcat w) = ops w
        \<and> stop_logcat w = w\<lparr>start_logcat_btn := True, stop_logcat_btn := False\<rparr>)"
  by (cases "logcat_worker w"; cases "logcat_thread w";
      cases "process (the (logcat_worker w))")
     (simp_all add: stop_logcat_def worker_stop_def Let_def)

theorem stop_logcat_idempotent_witness:
  "logcat_thread world0 = None \<and> logcat_worker world0 = None
   \<and> ops (stop_logcat world0) = ops world0
   \<and> stop_logcat world0 = world0
   \<and> ops (stop_logcat world_logging) = [ThreadStart, ProcessTerminate 4242, ThreadQuit, ThreadWait]
   \<and> stop_logcat (stop_logcat world_logging) = stop_logcat world_logging"
proof -
  have h: "logcat_thread world0 = None \<and> logcat_worker world0 = None"
    by (simp add: world0_def)
  have b: "world0\<lparr>start_logcat_btn := True, stop_logcat_btn := False\<rparr> = world0"
    by (simp add: world0_def)
  have o: "ops (stop_logcat world_logging)
      = [ThreadStart, ProcessTerminate 4242, ThreadQuit, ThreadWait]"
    by (simp add: world_logging_def world0_def stop_logcat_def worker_stop_def Let_def)
  from stop_logcat_idempotent [of world0] stop_logcat_idempotent [of world_logging] h b o
  show ?thesis by simp
qed

section \<open>Properties of the command runner\<close>

lemma tick_log [simp]: "tick (log e w c out) = tick w + 1"
  by (simp add: log_def Let_def split: option.splits prod.splits)

lemma modals_log [simp]: "modals (log e w c out) = modals w"
  by (simp add: log_def Let_def split: option.splits prod.splits)

lemma launched_log [simp]: "launched (log e w c out) = launched w"
  by (simp add: log_def Let_def split: option.splits prod.splits)

lemma fsys_log [simp]: "fsys (log e w c out) = fsys w"
  by (simp add: log_def Let_def split: option.splits prod.splits)

lemma log_output_log:
  "log_output (log e w c out)
     = log_output w
       @ (if c \<noteq> [] then [''['' @ clock e (tick w) @ ''] $ '' @ c] else [])
       @ (if strip out \<noteq> [] then [''['' @ clock e (tick w) @ ''] > '' @ strip out] else [])"
proof -
  have "strip out \<noteq> [] \<Longrightarrow> out \<noteq> []"
    by (auto simp: strip_def lstrip_def rstrip_def)
  then show ?thesis
    by (auto simp: log_def Let_def split: option.splits prod.splits)
qed

text \<open>
  C7: \<open>run_adb_command\<close> returns normally whatever the launch does. When
  \<open>subprocess.run\<close> raises, the error is shown in a modal dialog, the log view gets an
  entry with the joined command line, and the result is \<open>None\<close>; when the process
  finishes, the result is its standard output if \<open>return_output\<close> is set and \<open>None\<close>
  otherwise.
\<close>

theorem run_adb_command_returns:
  "\<exists>r w'. run_adb_command e w args return_output = (Inr r, w')
     \<and> launched w' = launched w @ [args]
     \<and> (\<forall>ex. subprocess_run e (tick w) args = Inl ex \<longrightarrow>
           r = None
           \<and> modals w' = modals w @ [(''Error'', exn_str ex)]
           \<and> log_output w'
               = log_output w
                 @ [''['' @ clock e (tick w + 1) @ ''] $ Error running command: ''
                      @ str_join '' '' args]
                 @ (if strip (exn_str ex) \<noteq> []
                    then [''['' @ clock e (tick w + 1) @ ''] > '' @ strip (exn_str ex)] else []))
     \<and> (\<forall>out err. subprocess_run e (tick w) args = Inr (out, err) \<longrightarrow>
           r = (if return_output then Some out else None)
           \<and> modals w' = modals w)"
proof (cases "subprocess_run e (tick w) args")
  case (Inl ex)
  then show ?thesis
    by (simp add: run_adb_command_def run_process_def critical_def Let_def log_output_log)
next
  case (Inr oe)
  obtain out err where "oe = (out, err)" by (cases oe)
  with Inr show ?thesis
    by (simp add: run_adb_command_def run_process_def Let_def)
qed

theorem run_adb_command_returns_witness:
  "subprocess_run env_no_adb (tick world0) [''/home/user/adb.exe'', ''devices'']
     = Inl (OtherError ''No such file: adb.exe'')
   \<and> subprocess_run env_ok (tick world0) [''/home/user/adb.exe'', ''devices'']
     = Inr (''Success'' @ nl, [])
   \<and> fst (run_adb_command env_no_adb world0 [''/home/user/adb.exe'', ''devices''] True) = Inr None
   \<and> modals (snd (run_adb_command env_no_adb world0 [''/home/user/adb.exe'', ''devices''] True))
       = [(''Error'', ''No such file: adb.exe'')]
   \<and> log_output (snd (run_adb_command env_no_adb world0 [''/home/user/adb.exe'', ''devices''] True))
       = [''[12:00:00] $ Error running command: /home/user/adb.exe devices'',
          ''[12:00:00] > No such file: adb.exe'']
   \<and> fst (run_adb_command env_ok world0 [''/home/user/adb.exe'', ''devices''] True)
       = Inr (Some (''Success'' @ nl))
   \<and> fst (run_adb_command env_ok world0 [''/home/user/adb.exe'', ''devices''] False) = Inr None"
proof -
  let ?args = "[''/home/user/adb.exe'', ''devices'']"
  have h1: "subprocess_run env_no_adb (tick world0) ?args = Inl (OtherError ''No such file: adb.exe'')"
    by (simp add: env_no_adb_def env_ok_def)
  have h2: "subprocess_run env_ok (tick world0) ?args = Inr (''Success'' @ nl, [])"
    by (simp add: env_ok_def)
  have c: "clock env_no_adb k = ''12:00:00''" for k
    by (simp add: env_no_adb_def env_ok_def)
  have s: "strip ''No such file: adb.exe'' = ''No such file: adb.exe''"
    by (simp add: strip_def lstrip_def rstrip_def isspace_def)
  have l: "log_output world0 = []" "modals world0 = []"
    by (simp_all add: world0_def)
  from run_adb_command_returns [of env_no_adb world0 ?args True]
  obtain r w' where a: "run_adb_command env_no_adb world0 ?args True = (Inr r, w')"
    "r = None" "modals w' = modals world0 @ [(''Error'', exn_str (OtherError ''No such file: adb.exe''))]"
    "log_output w' = log_output world0
                 @ [''['' @ clock env_no_adb (tick world0 + 1) @ ''] $ Error running command: ''
                      @ str_join '' '' ?args]
                 @ (if strip (exn_str (OtherError ''No such file: adb.exe'')) \<noteq> []
                    then [''['' @ clock env_no_adb (tick world0 + 1) @ ''] > ''
                           @ strip (exn_str (OtherError ''No such file: adb.exe''))] else [])"
    using h1 by blast
  from run_adb_command_returns [of env_ok world0 ?args True]
  obtain r1 w1 where b: "run_adb_command env_ok world0 ?args True = (Inr r1, w1)"
    "r1 = (if True then Some (''Success'' @ nl) else None)"
    using h2 by blast
  from run_adb_command_returns [of env_ok world0 ?args False]
  obtain r2 w2 where d: "run_adb_command env_ok world0 ?args False = (Inr r2, w2)"
    "r2 = (if False then Some (''Success'' @ nl) else None)"
    using h2 by blast
  from a b d h1 h2 show ?thesis by (simp add: c s l)
qed

section \<open>Properties of the session log\<close>

lemma diagnostics_log_ok:
  "write_error e (tick w) = None \<Longrightarrow> diagnostics (log e w c out) = diagnostics w"
  by (simp add: log_def Let_def)

lemma debug_file_log_ok:
  "write_error e (tick w) = None \<Longrightarrow>
   debug_file (log e w c out)
     = debug_file w @ concat (map (\<lambda>l. l @ nl) (written_lines (clock e (tick w)) c out))"
proof -
  have "strip out \<noteq> [] \<Longrightarrow> out \<noteq> []"
    by (auto simp: strip_def lstrip_def rstrip_def)
  moreover have "splitlines [] = []"
    by (simp add: splitlines_def)
  moreover have "strip [] = []"
    by (simp add: strip_def lstrip_def rstrip_def)
  moreover assume "write_error e (tick w) = None"
  ultimately show ?thesis
    by (auto simp: log_def Let_def written_lines_def comp_def)
qed

lemma log_write_fails:
  assumes "write_error e (tick w) = Some (msg, k)"
  shows "debug_file (log e w c out)
     = debug_file w @ take k (concat (map (\<lambda>l. l @ nl) (written_lines (clock e (tick w)) c out)))"
    and "diagnostics (log e w c out) = diagnostics w @ [''Failed to write to debug.txt: '' @ msg]"
proof -
  have "strip out \<noteq> [] \<Longrightarrow> out \<noteq> []"
    by (auto simp: strip_def lstrip_def rstrip_def)
  moreover have "splitlines [] = []"
    by (simp add: splitlines_def)
  moreover have "strip [] = []"
    by (simp add: strip_def lstrip_def rstrip_def)
  ultimately show "debug_file (log e w c out)
     = debug_file w @ take k (concat (map (\<lambda>l. l @ nl) (written_lines (clock e (tick w)) c out)))"
    using assms by (auto simp: log_def Let_def written_lines_def comp_def)
  show "diagnostics (log e w c out) = diagnostics w @ [''Failed to write to debug.txt: '' @ msg]"
    using assms by (simp add: log_def Let_def)
qed

lemma log_frame:
  "(log e w c out)\<lparr>tick := tick w, log_output := log_output w,
      debug_file := debug_file w, diagnostics := diagnostics w\<rparr> = w"
  by (simp add: log_def Let_def split: option.splits prod.splits)

lemma splitlines_from_plain:
  "\<forall>c \<in> set s. \<not> linebreak c \<Longrightarrow>
   splitlines_from cur s = (if cur @ s = [] then [] else [cur @ s])"
proof (induction cur s rule: splitlines_from.induct)
  case (1 cur)
  show ?case by simp
next
  case (2 cur c)
  then show ?case by simp
next
  case (3 cur c d ds)
  from "3.prems" have nb: "\<not> linebreak c" and rest: "\<forall>x \<in> set (d # ds). \<not> linebreak x"
    by simp_all
  from nb have "c \<noteq> CHR 0x0D" by (auto simp: linebreak_def)
  with nb "3.IH"(3) rest show ?case by simp
qed

lemma splitlines_plain:
  "\<forall>c \<in> set s. \<not> linebreak c \<Longrightarrow> s \<noteq> [] \<Longrightarrow> splitlines s = [s]"
  by (simp add: splitlines_def splitlines_from_plain)

lemma written_eq_shown:
  "\<forall>c \<in> set (strip output). \<not> linebreak c \<Longrightarrow>
   written_lines ts command output = shown_entries ts command output"
proof (cases "strip output = []")
  case True
  then show ?thesis
    by (simp add: written_lines_def shown_entries_def splitlines_def)
next
  case False
  assume "\<forall>c \<in> set (strip output). \<not> linebreak c"
  from splitlines_plain [OF this False] False show ?thesis
    by (simp add: written_lines_def shown_entries_def)
qed

text \<open>
  C2, as the specification words it, fails. A line shown in the logcat view reaches the
  session log file behind a time stamp and the tag \<open>[LOGCAT]\<close>; of an output of two
  lines shown by \<open>_log\<close> the second line reaches the file behind a prefix that the view
  does not show; and an output with a form feed is shown with the form feed, while the
  file gets two lines and no form feed, since \<open>str.splitlines\<close> breaks the output there.
\<close>

theorem log_file_not_verbatim_counterexample:
  "write_error env_ok (tick world0) = None
   \<and> logcat_output (update_logcat_and_debug_file env_ok world0 ''hello'') = [''hello'']
   \<and> debug_file (update_logcat_and_debug_file env_ok world0 ''hello'')
       = ''[12:00:00] [LOGCAT] hello'' @ nl
   \<and> debug_file (update_logcat_and_debug_file env_ok world0 ''hello'')
       \<noteq> debug_file world0 @ ''hello'' @ nl
   \<and> log_output (log env_ok world0 [] (''a'' @ nl @ ''b'')) = [''[12:00:00] > a'' @ nl @ ''b'']
   \<and> debug_file (log env_ok world0 [] (''a'' @ nl @ ''b''))
       = ''[12:00:00] > a'' @ nl @ ''[12:00:00] > b'' @ nl
   \<and> debug_file (log env_ok world0 [] (''a'' @ nl @ ''b''))
       \<noteq> debug_file world0 @ ''[12:00:00] > a'' @ nl @ ''b'' @ nl
   \<and> log_output (log env_ok world0 [] (''a'' @ [CHR 0x0C] @ ''b''))
       = [''[12:00:00] > a'' @ [CHR 0x0C] @ ''b'']
   \<and> debug_file (log env_ok world0 [] (''a'' @ [CHR 0x0C] @ ''b''))
       = ''[12:00:00] > a'' @ nl @ ''[12:00:00] > b'' @ nl
   \<and> CHR 0x0C \<notin> set (debug_file (log env_ok world0 [] (''a'' @ [CHR 0x0C] @ ''b'')))"
  by (simp add: env_ok_def world0_def update_logcat_and_debug_file_def log_def Let_def nl_def
      strip_def lstrip_def rstrip_def isspace_def splitlines_def linebreak_def)

text \<open>
  C2, amended: provided the write does not fail, every line shown is appended to the session
  log file once and in the order observed, in the line format of the file: a call of
  \<open>_log\<close> appends the command entry as shown and then each line of the shown output,
  the lines being those of \<open>str.splitlines\<close>, behind the prefix of the time stamp and
  \<open>>\<close>, which is the output entry as shown when the output has one line;
  \<open>update_logcat_and_debug_file\<close> appends the line shown behind the time stamp and the tag
  \<open>[LOGCAT]\<close>. A failed write is reported to \<open>print\<close> only, without a dialog.
\<close>

theorem log_lines_reach_file:
  "log_output (log e w command output)
     = log_output w @ shown_entries (clock e (tick w)) command output
   \<and> logcat_output (update_logcat_and_debug_file e w line) = logcat_output w @ [line]
   \<and> (write_error e (tick w) = None \<longrightarrow>
        debug_file (log e w command output)
          = debug_file w
            @ concat (map (\<lambda>l. l @ nl) (written_lines (clock e (tick w)) command output))
        \<and> diagnostics (log e w command output) = diagnostics w
        \<and> debug_file (update_logcat_and_debug_file e w line)
            = debug_file w @ ''['' @ clock e (tick w) @ ''] [LOGCAT] '' @ line @ nl
        \<and> diagnostics (update_logcat_and_debug_file e w line) = diagnostics w)
   \<and> ((\<forall>c \<in> set (strip output). \<not> linebreak c) \<longrightarrow>
        written_lines (clock e (tick w)) command output
          = shown_entries (clock e (tick w)) command output)
   \<and> (\<forall>msg k. write_error e (tick w) = Some (msg, k) \<longrightarrow>
        diagnostics (log e w command output)
            = diagnostics w @ [''Failed to write to debug.txt: '' @ msg]
        \<and> modals (log e w command output) = modals w
        \<and> diagnostics (update_logcat_and_debug_file e w line)
            = diagnostics w @ [''Failed to write logcat line to debug.txt: '' @ msg]
        \<and> modals (update_logcat_and_debug_file e w line) = modals w
        \<and> log_output (update_logcat_and_debug_file e w line) = log_output w)"
proof (intro conjI impI allI)
  show "log_output (log e w command output)
     = log_output w @ shown_entries (clock e (tick w)) command output"
    by (simp add: log_output_log shown_entries_def)
  show "logcat_output (update_logcat_and_debug_file e w line) = logcat_output w @ [line]"
    by (simp add: update_logcat_and_debug_file_def Let_def split: option.splits prod.splits)
next
  assume ok: "write_error e (tick w) = None"
  show "debug_file (log e w command output)
          = debug_file w
            @ concat (map (\<lambda>l. l @ nl) (written_lines (clock e (tick w)) command output))"
    using ok by (rule debug_file_log_ok)
  show "diagnostics (log e w command output) = diagnostics w"
    using ok by (rule diagnostics_log_ok)
  show "debug_file (update_logcat_and_debug_file e w line)
            = debug_file w @ ''['' @ clock e (tick w) @ ''] [LOGCAT] '' @ line @ nl"
    using ok by (simp add: update_logcat_and_debug_file_def Let_def)
  show "diagnostics (update_logcat_and_debug_file e w line) = diagnostics w"
    using ok by (simp add: update_logcat_and_debug_file_def Let_def)
next
  assume "\<forall>c \<in> set (strip output). \<not> linebreak c"
  then show "written_lines (clock e (tick w)) command output
          = shown_entries (clock e (tick w)) command output"
    by (rule written_eq_shown)
next
  fix msg k
  assume f: "write_error e (tick w) = Some (msg, k)"
  show "diagnostics (log e w command output)
            = diagnostics w @ [''Failed to write to debug.txt: '' @ msg]"
    using f by (rule log_write_fails)
  show "modals (log e w command output) = modals w"
    by simp
  show "diagnostics (update_logcat_and_debug_file e w line)
            = diagnostics w @ [''Failed to write logcat line to debug.txt: '' @ msg]"
    using f by (simp add: update_logcat_and_debug_file_def Let_def)
  show "modals (update_logcat_and_debug_file e w line) = modals w"
    using f by (simp add: update_logcat_and_debug_file_def Let_def)
  show "log_output (update_logcat_and_debug_file e w line) = log_output w"
    using f by (simp add: update_logcat_and_debug_file_def Let_def)
qed

theorem log_lines_reach_file_witness:
  "write_error env_ok (tick world0) = None
   \<and> list_all (\<lambda>c. \<not> linebreak c) (strip ''List of devices attached'')
   \<and> write_error env_disk_full (tick world0) = Some (''No space left on device'', 10)
   \<and> log_output (log env_ok world0 ''adb devices'' ''List of devices attached'')
       = [''[12:00:00] $ adb devices'', ''[12:00:00] > List of devices attached'']
   \<and> debug_file (log env_ok world0 ''adb devices'' ''List of devices attached'')
       = ''[12:00:00] $ adb devices'' @ nl @ ''[12:00:00] > List of devices attached'' @ nl
   \<and> debug_file (update_logcat_and_debug_file env_ok world0 ''boot completed'')
       = ''[12:00:00] [LOGCAT] boot completed'' @ nl
   \<and> log_output (log env_disk_full world0 ''adb devices'' ''List of devices attached'')
       = [''[12:00:00] $ adb devices'', ''[12:00:00] > List of devices attached'']
   \<and> diagnostics (log env_disk_full world0 ''adb devices'' ''List of devices attached'')
       = [''Failed to write to debug.txt: No space left on device'']
   \<and> modals (log env_disk_full world0 ''adb devices'' ''List of devices attached'') = []
   \<and> debug_file (log env_disk_full world0 ''adb devices'' ''List of devices attached'')
       = ''[12:00:00]''"
proof -
  have h1: "write_error env_ok (tick world0) = None"
    by (simp add: env_ok_def)
  have s: "strip ''List of devices attached'' = ''List of devices attached''"
    by (simp add: strip_def lstrip_def rstrip_def isspace_def)
  have h2: "\<forall>c \<in> set (strip ''List of devices attached''). \<not> linebreak c"
    unfolding s by (simp add: linebreak_def)
  have h3: "write_error env_disk_full (tick world0) = Some (''No space left on device'', 10)"
    by (simp add: env_disk_full_def env_ok_def)
  have c: "clock env_ok k = ''12:00:00''" "clock env_disk_full k = ''12:00:00''" for k
    by (simp_all add: env_disk_full_def env_ok_def)
  have w: "log_output world0 = []" "debug_file world0 = []" "diagnostics world0 = []"
    "modals world0 = []"
    by (simp_all add: world0_def)
  have sh: "shown_entries ''12:00:00'' ''adb devices'' ''List of devices attached''
      = [''[12:00:00] $ adb devices'', ''[12:00:00] > List of devices attached'']"
    by (simp add: shown_entries_def s)
  have p: "debug_file (log env_disk_full world0 ''adb devices'' ''List of devices attached'')
      = ''[12:00:00]''"
    using written_eq_shown [OF h2, of "''12:00:00''" "''adb devices''"]
    by (simp add: log_write_fails(1) [OF h3] c w sh)
  from log_lines_reach_file [of env_ok world0 "''adb devices''" "''List of devices attached''"
      "''boot completed''"]
    log_lines_reach_file [of env_disk_full world0 "''adb devices''" "''List of devices attached''"
      "''boot completed''"]
    h1 h2 h3 p
  show ?thesis by (simp add: c w sh list_all_iff)
qed

section \<open>Properties of the installer dispatch\<close>

lemma strip_all_space:
  assumes "\<forall>c \<in> set s. isspace c"
  shows "strip s = []"
proof -
  from assms have "\<forall>c \<in> set (rev s). isspace c" by simp
  then have d: "dropWhile isspace (rev s) = []"
    by (simp only: dropWhile_eq_Nil_conv)
  show ?thesis unfolding strip_def lstrip_def rstrip_def d by simp
qed

lemma strip_plain:
  assumes "s \<noteq> []" and "\<not> isspace (hd s)" and "\<not> isspace (last s)"
  shows "strip s = s"
proof -
  from assms(1,3) have "dropWhile isspace (rev s) = rev s"
    by (cases "rev s") (simp_all add: last_rev [symmetric])
  then have "rstrip s = s" by (simp add: rstrip_def)
  moreover from assms(1,2) have "dropWhile isspace s = s" by (cases s) simp_all
  ultimately show ?thesis by (simp add: strip_def lstrip_def)
qed

lemma strip_no_path: "strip ''No APK path specified.'' = ''No APK path specified.''"
  by (rule strip_plain) (simp_all add: isspace_def)

lemma lines_no_path: "splitlines ''No APK path specified.'' = [''No APK path specified.'']"
  by (rule splitlines_plain) (simp_all add: linebreak_def)

lemma strip_unsupported:
  "strip (''Unsupported file type: '' @ ext @ ''. Supported: .apk, .apkm, .xapk, .apks'')
     = ''Unsupported file type: '' @ ext @ ''. Supported: .apk, .apkm, .xapk, .apks''"
  by (rule strip_plain) (simp_all add: isspace_def)

text \<open>
  C10: with an empty or blank path field \<open>install_app\<close> returns after one call of
  \<open>_log\<close>: no process is launched, the file system is as before (no temporary
  directory), no dialog is shown, the log view gets the one entry
  \<open>No APK path specified.\<close>, the session log file gets the same line (or, when the
  write fails, \<open>print\<close> reports it), and nothing else of the state changes.
\<close>

theorem install_app_no_path:
  assumes "\<forall>c \<in> set (install_apk_input w). isspace c"
  shows "\<exists>w'. install_app e w = (Inr (), w')
     \<and> launched w' = launched w \<and> fsys w' = fsys w \<and> modals w' = modals w
     \<and> log_output w' = log_output w @ [''['' @ clock e (tick w) @ ''] > No APK path specified.'']
     \<and> (write_error e (tick w) = None \<longrightarrow>
          debug_file w' = debug_file w @ ''['' @ clock e (tick w) @ ''] > No APK path specified.'' @ nl
          \<and> diagnostics w' = diagnostics w)
     \<and> (\<forall>msg k. write_error e (tick w) = Some (msg, k) \<longrightarrow>
          debug_file w'
            = debug_file w @ take k (''['' @ clock e (tick w) @ ''] > No APK path specified.'' @ nl)
          \<and> diagnostics w' = diagnostics w @ [''Failed to write to debug.txt: '' @ msg])
     \<and> w'\<lparr>tick := tick w, log_output := log_output w,
            debug_file := debug_file w, diagnostics := diagnostics w\<rparr> = w"
proof -
  let ?w = "log e w [] ''No APK path specified.''"
  from assms have "install_app e w = (Inr (), ?w)"
    by (simp add: install_app_def strip_all_space)
  moreover have "log_output ?w
      = log_output w @ [''['' @ clock e (tick w) @ ''] > No APK path specified.'']"
    by (simp add: log_output_log strip_no_path)
  moreover have "write_error e (tick w) = None \<longrightarrow>
      debug_file ?w = debug_file w @ ''['' @ clock e (tick w) @ ''] > No APK path specified.'' @ nl
      \<and> diagnostics ?w = diagnostics w"
    by (simp add: debug_file_log_ok diagnostics_log_ok written_lines_def strip_no_path
        lines_no_path)
  moreover have "\<forall>msg k. write_error e (tick w) = Some (msg, k) \<longrightarrow>
      debug_file ?w
        = debug_file w @ take k (''['' @ clock e (tick w) @ ''] > No APK path specified.'' @ nl)
      \<and> diagnostics ?w = diagnostics w @ [''Failed to write to debug.txt: '' @ msg]"
    by (simp add: log_write_fails written_lines_def strip_no_path lines_no_path)
  moreover have "?w\<lparr>tick := tick w, log_output := log_output w,
      debug_file := debug_file w, diagnostics := diagnostics w\<rparr> = w"
    by (rule log_frame)
  ultimately show ?thesis by simp
qed

theorem install_app_no_path_witness:
  "list_all isspace (install_apk_input world0)
   \<and> install_apk_input world0 = ''   ''
   \<and> write_error env_ok (tick world0) = None
   \<and> fst (install_app env_ok world0) = Inr ()
   \<and> launched (snd (install_app env_ok world0)) = []
   \<and> fsys (snd (install_app env_ok world0)) = fsys world0
   \<and> log_output (snd (install_app env_ok world0)) = [''[12:00:00] > No APK path specified.'']
   \<and> debug_file (snd (install_app env_ok world0)) = ''[12:00:00] > No APK path specified.'' @ nl"
proof -
  have h: "\<forall>c \<in> set (install_apk_input world0). isspace c"
    by (simp add: world0_def isspace_def)
  have i: "install_apk_input world0 = ''   ''" "launched world0 = []" "log_output world0 = []"
    "debug_file world0 = []"
    by (simp_all add: world0_def)
  have o: "write_error env_ok (tick world0) = None" "clock env_ok (tick world0) = ''12:00:00''"
    by (simp_all add: env_ok_def)
  from install_app_no_path [OF h, of env_ok] h i o show ?thesis
    by (auto simp: list_all_iff)
qed

text \<open>
  C6: for a path whose lower-cased extension is none of \<open>.apk\<close>, \<open>.apks\<close>,
  \<open>.apkm\<close>, \<open>.xapk\<close>, \<open>install_app\<close> returns after one call of \<open>_log\<close>: no
  process is launched, the file system is as before, no dialog is shown, the log view
  gets the one entry that names the unsupported type, and nothing of the state changes
  but what that call of \<open>_log\<close> changes.
\<close>

theorem install_app_unsupported:
  assumes "strip (install_apk_input w) \<noteq> []"
    and "lower (snd (splitext (strip (install_apk_input w))))
           \<notin> {''.apk'', ''.apks'', ''.apkm'', ''.xapk''}"
  shows "\<exists>w'. install_app e w = (Inr (), w')
     \<and> launched w' = launched w \<and> fsys w' = fsys w \<and> modals w' = modals w
     \<and> log_output w'
         = log_output w
           @ [''['' @ clock e (tick w) @ ''] > Unsupported file type: ''
                @ lower (snd (splitext (strip (install_apk_input w))))
                @ ''. Supported: .apk, .apkm, .xapk, .apks'']
     \<and> (\<forall>msg k. write_error e (tick w) = Some (msg, k) \<longrightarrow>
          diagnostics w' = diagnostics w @ [''Failed to write to debug.txt: '' @ msg]
          \<and> debug_file w'
              = debug_file w
                @ take k (concat (map (\<lambda>l. ''['' @ clock e (tick w) @ ''] > '' @ l @ nl)
                    (splitlines (''Unsupported file type: ''
                       @ lower (snd (splitext (strip (install_apk_input w))))
                       @ ''. Supported: .apk, .apkm, .xapk, .apks'')))))
     \<and> (write_error e (tick w) = None \<longrightarrow>
          diagnostics w' = diagnostics w
          \<and> debug_file w'
              = debug_file w
                @ concat (map (\<lambda>l. ''['' @ clock e (tick w) @ ''] > '' @ l @ nl)
                    (splitlines (''Unsupported file type: ''
                       @ lower (snd (splitext (strip (install_apk_input w))))
                       @ ''. Supported: .apk, .apkm, .xapk, .apks''))))
     \<and> w'\<lparr>tick := tick w, log_output := log_output w,
            debug_file := debug_file w, diagnostics := diagnostics w\<rparr> = w"
proof -
  let ?ext = "lower (snd (splitext (strip (install_apk_input w))))"
  let ?msg = "''Unsupported file type: '' @ ?ext @ ''. Supported: .apk, .apkm, .xapk, .apks''"
  let ?w = "log e w [] ?msg"
  from assms have "install_app e w = (Inr (), ?w)"
    by (simp add: install_app_def Let_def)
  moreover have "log_output ?w = log_output w @ [''['' @ clock e (tick w) @ ''] > '' @ ?msg]"
    by (simp only: log_output_log strip_unsupported) simp
  moreover have wl: "written_lines (clock e (tick w)) [] ?msg
        = map (\<lambda>line. ''['' @ clock e (tick w) @ ''] > '' @ line) (splitlines ?msg)"
    by (simp only: written_lines_def strip_unsupported) simp
  moreover have "\<forall>msg k. write_error e (tick w) = Some (msg, k) \<longrightarrow>
      diagnostics ?w = diagnostics w @ [''Failed to write to debug.txt: '' @ msg]
      \<and> debug_file ?w = debug_file w
          @ take k (concat (map (\<lambda>l. ''['' @ clock e (tick w) @ ''] > '' @ l @ nl)
              (splitlines ?msg)))"
  proof (intro allI impI)
    fix msg k
    assume f: "write_error e (tick w) = Some (msg, k)"
    from log_write_fails [OF f, of "[]" ?msg] wl
    show "diagnostics ?w = diagnostics w @ [''Failed to write to debug.txt: '' @ msg]
      \<and> debug_file ?w = debug_file w
          @ take k (concat (map (\<lambda>l. ''['' @ clock e (tick w) @ ''] > '' @ l @ nl)
              (splitlines ?msg)))"
      by (simp add: comp_def)
  qed
  moreover have "write_error e (tick w) = None \<longrightarrow>
      diagnostics ?w = diagnostics w
      \<and> debug_file ?w = debug_file w
          @ concat (map (\<lambda>l. ''['' @ clock e (tick w) @ ''] > '' @ l @ nl) (splitlines ?msg))"
  proof
    assume ok: "write_error e (tick w) = None"
    have "written_lines (clock e (tick w)) [] ?msg
        = map (\<lambda>line. ''['' @ clock e (tick w) @ ''] > '' @ line) (splitlines ?msg)"
      by (simp only: written_lines_def strip_unsupported) simp
    then have "debug_file ?w = debug_file w
        @ concat (map (\<lambda>l. ''['' @ clock e (tick w) @ ''] > '' @ l @ nl) (splitlines ?msg))"
      by (simp add: debug_file_log_ok [OF ok] comp_def)
    with diagnostics_log_ok [OF ok]
    show "diagnostics ?w = diagnostics w
      \<and> debug_file ?w = debug_file w
          @ concat (map (\<lambda>l. ''['' @ clock e (tick w) @ ''] > '' @ l @ nl) (splitlines ?msg))"
      by simp
  qed
  moreover have "?w\<lparr>tick := tick w, log_output := log_output w,
      debug_file := debug_file w, diagnostics := diagnostics w\<rparr> = w"
    by (rule log_frame)
  ultimately show ?thesis by simp
qed

theorem install_app_unsupported_witness:
  "strip (install_apk_input world_txt) = ''/home/user/notes.txt''
   \<and> strip (install_apk_input world_txt) \<noteq> []
   \<and> lower (snd (splitext (strip (install_apk_input world_txt)))) = ''.txt''
   \<and> lower (snd (splitext (strip (install_apk_input world_txt))))
        \<notin> {''.apk'', ''.apks'', ''.apkm'', ''.xapk''}
   \<and> fst (install_app env_ok world_txt) = Inr ()
   \<and> launched (snd (install_app env_ok world_txt)) = []
   \<and> modals (snd (install_app env_ok world_txt)) = []
   \<and> log_output (snd (install_app env_ok world_txt))
       = [''[12:00:00] > Unsupported file type: .txt. Supported: .apk, .apkm, .xapk, .apks'']"
proof -
  have p: "strip (install_apk_input world_txt) = ''/home/user/notes.txt''"
    by (simp add: world_txt_def world0_def strip_def lstrip_def rstrip_def isspace_def)
  have x: "lower (snd (splitext ''/home/user/notes.txt'')) = ''.txt''"
    by code_simp
  have h1: "strip (install_apk_input world_txt) \<noteq> []"
    by (simp add: p)
  have h2: "lower (snd (splitext (strip (install_apk_input world_txt))))
      \<notin> {''.apk'', ''.apks'', ''.apkm'', ''.xapk''}"
    by (simp add: p x)
  have i: "launched world_txt = []" "log_output world_txt = []" "modals world_txt = []"
    by (simp_all add: world_txt_def world0_def)
  have o: "clock env_ok (tick world_txt) = ''12:00:00''"
    by (simp add: env_ok_def)
  from install_app_unsupported [OF h1 h2, of env_ok] h1 h2 p x i o show ?thesis by auto
qed

lemma install_split_bad_zip:
  assumes "mkdtemp e (tick w) = Inr td" and "zip_extract e (tick w + 1) path = NotAZip"
  shows "fsys (snd (install_split e w path ext)) = fs_put (fsys w) td (Dir [])"
  using assms
  by (simp add: install_split_def split_try_def extract_zip_to_temp_def Let_def critical_def)

text \<open>
  C1: for a path with the extension \<open>.xapk\<close> whose content is not a ZIP archive,
  \<open>install_app\<close> shows the dialog and logs the entry of the invalid archive, but the
  temporary directory that \<open>_extract_zip_to_temp\<close> has created is still there when
  it returns: the exception leaves \<open>_extract_zip_to_temp\<close> before \<open>temp_dir\<close> is
  assigned, and the \<open>finally\<close> block removes nothing. When the archive is extracted,
  the directory is removed.
\<close>

theorem install_app_bad_zip_keeps_temp_dir:
  "install_apk_input world_xapk = ''/home/user/game.xapk''
   \<and> mkdtemp env_ok (tick world_xapk) = Inr ''/tmp/sageadb_1''
   \<and> zip_extract env_ok (tick world_xapk + 1) ''/home/user/game.xapk'' = NotAZip
   \<and> \<not> path_exists (fsys world_xapk) ''/tmp/sageadb_1''
   \<and> fst (install_app env_ok world_xapk) = Inr ()
   \<and> modals (snd (install_app env_ok world_xapk))
       = [(''Error'', ''Invalid .xapk file (not a valid ZIP archive).'')]
   \<and> log_output (snd (install_app env_ok world_xapk))
       = [''[12:00:00] > Failed to read /home/user/game.xapk: invalid archive.'']
   \<and> path_exists (fsys (snd (install_app env_ok world_xapk))) ''/tmp/sageadb_1''
   \<and> \<not> path_exists (fsys (snd (install_app env_zip world_xapk))) ''/tmp/sageadb_1''"
  by code_simp

end
